theory Spec2Isabelle
  imports Main "HOL-Library.AList"
begin

section \<open>Text\<close>

text \<open>
  Python text is modelled as a list of 8-bit characters, each standing for the code point
  of the same number (U+0000 to U+00FF). On this range the regular expression class
  \<^verbatim>\<open>\d\<close> is exactly the ASCII digits, and \<^verbatim>\<open>\s\<close>, \<^verbatim>\<open>str.isspace\<close> and the
  characters removed by \<^verbatim>\<open>str.strip()\<close> are the twelve code points of \<open>is_space\<close>.
\<close>

definition is_space :: "char \<Rightarrow> bool" where
  "is_space c =
     (let n = (of_char c :: nat)
      in (9 \<le> n \<and> n \<le> 13) \<or> (28 \<le> n \<and> n \<le> 32) \<or> n = 133 \<or> n = 160)"

definition is_digit :: "char \<Rightarrow> bool" where
  "is_digit c = (let n = (of_char c :: nat) in 48 \<le> n \<and> n \<le> 57)"

definition digit_val :: "char \<Rightarrow> int" where
  "digit_val c = int (of_char c) - 48"

text \<open>\<^verbatim>\<open>s.strip()\<close>: whitespace is dropped at both ends.\<close>

definition strip :: "string \<Rightarrow> string" where
  "strip s = rev (dropWhile is_space (rev (dropWhile is_space s)))"

text \<open>\<^verbatim>\<open>s.replace(c, "")\<close> for a one-character \<open>c\<close>: every occurrence is deleted.\<close>

definition replace_empty :: "char \<Rightarrow> string \<Rightarrow> string" where
  "replace_empty c s = filter (\<lambda>x. x \<noteq> c) s"

text \<open>\<^verbatim>\<open>s.upper()\<close>, needed on the four markers the pattern can capture.\<close>

definition upper_char :: "char \<Rightarrow> char" where
  "upper_char c =
     (let n = (of_char c :: nat) in if 97 \<le> n \<and> n \<le> 122 then char_of (n - 32) else c)"

definition upper :: "string \<Rightarrow> string" where
  "upper s = map upper_char s"

text \<open>\<^verbatim>\<open>int(s)\<close> on a group captured by \<^verbatim>\<open>\d{1,2}\<close> or \<^verbatim>\<open>\d{2}\<close>: digits only.\<close>

definition int_of_digits :: "string \<Rightarrow> int" where
  "int_of_digits s = foldl (\<lambda>a c. 10 * a + digit_val c) 0 s"

section \<open>The time parser\<close>

text \<open>
  \<^verbatim>\<open>re.match(r"(\d{1,2}):(\d{2})\s*(AM|PM|am|pm)", s)\<close>. The match is anchored at the
  start of \<open>s\<close> and not at its end. \<open>match_marker\<close> is the alternation, tried in the
  order written; \<open>match_after_hour\<close> is the pattern from the colon on, given the hour
  group already consumed; \<open>re_match\<close> tries the greedy two-digit hour first and falls
  back to a one-digit hour, as the backtracking matcher does. The result is the three
  groups.
\<close>

definition match_marker :: "string \<Rightarrow> string option" where
  "match_marker s =
     (if take 2 s = ''AM'' then Some ''AM''
      else if take 2 s = ''PM'' then Some ''PM''
      else if take 2 s = ''am'' then Some ''am''
      else if take 2 s = ''pm'' then Some ''pm''
      else None)"

fun match_after_hour :: "string \<Rightarrow> string \<Rightarrow> (string \<times> string \<times> string) option" where
  "match_after_hour g1 (c # m1 # m2 # r) =
     (if c = CHR '':'' \<and> is_digit m1 \<and> is_digit m2
      then (case match_marker (dropWhile is_space r) of
              Some g3 \<Rightarrow> Some (g1, [m1, m2], g3)
            | None \<Rightarrow> None)
      else None)"
| "match_after_hour g1 _ = None"

fun re_match :: "string \<Rightarrow> (string \<times> string \<times> string) option" where
  "re_match (d1 # d2 # r) =
     (if is_digit d1 \<and> is_digit d2
      then (case match_after_hour [d1, d2] r of
              Some g \<Rightarrow> Some g
            | None \<Rightarrow> match_after_hour [d1] (d2 # r))
      else if is_digit d1 then match_after_hour [d1] (d2 # r)
      else None)"
| "re_match _ = None"

text \<open>\<^verbatim>\<open>f"{n:02d}"\<close> for \<open>0 \<le> n \<le> 99\<close>, the only range it is called on.\<close>

definition fmt_02d :: "int \<Rightarrow> string" where
  "fmt_02d n = [char_of (48 + nat (n div 10)), char_of (48 + nat (n mod 10))]"

text \<open>Line 156: newlines and spaces are deleted everywhere, then the ends are stripped.\<close>

definition normalised :: "string \<Rightarrow> string" where
  "normalised time_str = strip (replace_empty CHR '' '' (replace_empty (CHR 0x0A) time_str))"

definition convert_to_24h :: "string \<Rightarrow> string option" where
  "convert_to_24h time_str =
     (let time_str = normalised time_str
      in case re_match time_str of
           None \<Rightarrow> None
         | Some (g1, g2, g3) \<Rightarrow>
             (let h = int_of_digits g1; m = int_of_digits g2; ampm = upper g3;
                  h = (if ampm = ''PM'' \<and> h \<noteq> 12 then h + 12
                       else if ampm = ''AM'' \<and> h = 12 then 0
                       else h)
              in if 0 \<le> h \<and> h \<le> 23 \<and> 0 \<le> m \<and> m \<le> 59
                 then Some (fmt_02d h @ '':'' @ fmt_02d m)
                 else None))"

section \<open>Errors, dictionaries and the scraper\<close>

datatype error = ValueError | BrowserError

text \<open>
  A Python \<^verbatim>\<open>dict\<close> that the code iterates is an association list in insertion order
  with distinct keys: \<^verbatim>\<open>d[k] = v\<close> is \<open>AList.update k v d\<close> (the value is replaced in
  place when the key is present, the pair is appended otherwise), \<^verbatim>\<open>k in d\<close> is
  \<open>map_of d k \<noteq> None\<close>, and \<^verbatim>\<open>not d\<close> is \<open>d = []\<close>.
\<close>

type_synonym dict = "(string \<times> string) list"

definition PRAYER_NAMES :: "string list" where
  "PRAYER_NAMES = [''Fajr'', ''Dhuhr'', ''Asr'', ''Maghrib'', ''Isha'']"

text \<open>
  What the browser shows to one run of \<^verbatim>\<open>scrape_iqama_times\<close>. Any call into the browser
  may raise; the observation says, for every call the code makes, whether it raised and
  what it returned otherwise.
  \<^item> \<open>PageRaises\<close>: launching the browser, opening the page, the navigation (with its
    30 s timeout) or the query for the labels raised.
  \<^item> \<open>Page ls closes\<close>: the labels found, in order, and whether \<^verbatim>\<open>browser.close()\<close>
    returned.
  \<^item> \<open>LabelRaises\<close>: \<^verbatim>\<open>label.inner_text()\<close> raised; \<open>Label text card\<close>: it returned \<open>text\<close>.
  \<^item> \<open>CardRaises\<close>: finding the card or its iqama label raised (also when the card is
    not an element); \<open>NoIqamaLabel\<close>: the query returned nothing; \<open>IqamaLabel t\<close>: found.
  \<^item> \<open>NoTimeElement\<close>: the handle of the next sibling is falsy; \<open>TimeElementRaises\<close>:
    reading its text raised (also when the handle is not an element);
    \<open>TimeElement raw\<close>: \<^verbatim>\<open>inner_text()\<close> returned \<open>raw\<close>.
\<close>

datatype time_obs = NoTimeElement | TimeElementRaises | TimeElement string

datatype card_obs = CardRaises | NoIqamaLabel | IqamaLabel time_obs

datatype label_obs = LabelRaises | Label string card_obs

datatype page_obs = PageRaises | Page "label_obs list" bool

text \<open>
  The body of the \<^verbatim>\<open>for label in prayer_labels\<close> loop, lines 113 to 141, on the
  dictionary built so far: \<open>Inr ()\<close> when the body ends or reaches a \<^verbatim>\<open>continue\<close>, \<open>Inl\<close>
  when a call raises. An exception leaves the dictionary as it is.
\<close>

fun scrape_label :: "label_obs \<Rightarrow> dict \<Rightarrow> (error + unit) \<times> dict" where
  "scrape_label LabelRaises iqama_times = (Inl BrowserError, iqama_times)"
| "scrape_label (Label label_text the_card) iqama_times =
     (let prayer_name = strip label_text
      in if prayer_name \<notin> set PRAYER_NAMES then (Inr (), iqama_times)
         else (case the_card of
                 CardRaises \<Rightarrow> (Inl BrowserError, iqama_times)
               | NoIqamaLabel \<Rightarrow> (Inr (), iqama_times)
               | IqamaLabel NoTimeElement \<Rightarrow> (Inr (), iqama_times)
               | IqamaLabel TimeElementRaises \<Rightarrow> (Inl BrowserError, iqama_times)
               | IqamaLabel (TimeElement raw) \<Rightarrow>
                   (case convert_to_24h (strip raw) of
                      Some converted \<Rightarrow>
                        (Inr (), AList.update prayer_name converted iqama_times)
                    | None \<Rightarrow> (Inr (), iqama_times))))"

text \<open>The loop of line 112: the first exception ends it.\<close>

fun scrape_labels :: "label_obs list \<Rightarrow> dict \<Rightarrow> (error + unit) \<times> dict" where
  "scrape_labels [] iqama_times = (Inr (), iqama_times)"
| "scrape_labels (label # ls) iqama_times =
     (case scrape_label label iqama_times of
        (Inl e, iqama_times) \<Rightarrow> (Inl e, iqama_times)
      | (Inr u, iqama_times) \<Rightarrow> scrape_labels ls iqama_times)"

text \<open>The \<^verbatim>\<open>try\<close> block, lines 104 to 143, started on the empty dictionary.\<close>

definition scrape_try :: "page_obs \<Rightarrow> (error + unit) \<times> dict" where
  "scrape_try page =
     (case page of
        PageRaises \<Rightarrow> (Inl BrowserError, [])
      | Page ls closes \<Rightarrow>
          (case scrape_labels ls [] of
             (Inl e, iqama_times) \<Rightarrow> (Inl e, iqama_times)
           | (Inr u, iqama_times) \<Rightarrow>
               (if closes then (Inr (), iqama_times) else (Inl BrowserError, iqama_times))))"

text \<open>
  \<^verbatim>\<open>scrape_iqama_times\<close>: \<^verbatim>\<open>except Exception\<close> catches whatever the block raised, and the
  dictionary, created before the block, is returned in both cases. \<open>Inl\<close> would be an
  exception reaching the caller.
\<close>

definition scrape_iqama_times :: "page_obs \<Rightarrow> error + dict" where
  "scrape_iqama_times page =
     (case scrape_try page of
        (Inl e, iqama_times) \<Rightarrow> Inr iqama_times
      | (Inr u, iqama_times) \<Rightarrow> Inr iqama_times)"

section \<open>Reading a time of day back\<close>

text \<open>\<^verbatim>\<open>s.split(":")\<close>: the fields between the separators, at least one.\<close>

fun split_on :: "char \<Rightarrow> string \<Rightarrow> string list" where
  "split_on c [] = [[]]"
| "split_on c (x # xs) =
     (if x = c then [] # split_on c xs
      else (case split_on c xs of
              f # fs \<Rightarrow> (x # f) # fs
            | [] \<Rightarrow> [[x]]))"

text \<open>
  \<^verbatim>\<open>int(s)\<close> on arbitrary text: whitespace around the number is skipped (for \<^verbatim>\<open>int\<close>
  the code points 28 to 31 are not whitespace), one sign is allowed, and the digits may
  be separated by single underscores. \<open>None\<close> is \<^verbatim>\<open>ValueError\<close>. The interpreter's limit
  on the number of digits (4300 by default) is not modelled.
\<close>

definition is_int_space :: "char \<Rightarrow> bool" where
  "is_int_space c =
     (let n = (of_char c :: nat) in (9 \<le> n \<and> n \<le> 13) \<or> n = 32 \<or> n = 133 \<or> n = 160)"

fun int_body :: "string \<Rightarrow> bool" where
  "int_body [] = False"
| "int_body [c] = is_digit c"
| "int_body (c # d # r) =
     (is_digit c \<and> (if d = CHR ''_'' then int_body r else int_body (d # r)))"

definition py_int :: "string \<Rightarrow> int option" where
  "py_int s =
     (let t = rev (dropWhile is_int_space (rev (dropWhile is_int_space s)));
          neg = (take 1 t = ''-'');
          body = (if take 1 t = ''-'' \<or> take 1 t = ''+'' then drop 1 t else t)
      in if int_body body
         then Some ((if neg then - 1 else 1) * int_of_digits (replace_empty CHR ''_'' body))
         else None)"

text \<open>\<^verbatim>\<open>h, m = map(int, time_str.split(":"))\<close>: every failure is a \<^verbatim>\<open>ValueError\<close>.\<close>

definition parse_hm :: "string \<Rightarrow> error + (int \<times> int)" where
  "parse_hm time_str =
     (case split_on CHR '':'' time_str of
        [a, b] \<Rightarrow>
          (case py_int a of
             None \<Rightarrow> Inl ValueError
           | Some h \<Rightarrow> (case py_int b of None \<Rightarrow> Inl ValueError | Some m \<Rightarrow> Inr (h, m)))
      | _ \<Rightarrow> Inl ValueError)"

section \<open>Dates and times\<close>

text \<open>
  A date is its proleptic Gregorian ordinal (\<^verbatim>\<open>date.toordinal()\<close>), so that
  \<^verbatim>\<open>date.weekday()\<close> is \<open>(ordinal + 6) mod 7\<close>, Monday being 0. Every \<^verbatim>\<open>datetime\<close> of
  the program carries the same \<^verbatim>\<open>tzinfo\<close> object, and Python then compares and adds on
  the wall clock alone; a \<^verbatim>\<open>datetime\<close> is the number of microseconds of wall-clock time
  since midnight of ordinal 0.
\<close>

type_synonym datetime = int

definition weekday :: "nat \<Rightarrow> nat" where
  "weekday d = (d + 6) mod 7"

definition minutes :: "int \<Rightarrow> int" where
  "minutes n = n * 60000000"

text \<open>
  \<^verbatim>\<open>datetime.combine(today, datetime.min.time().replace(hour=h, minute=m), tzinfo=TIMEZONE)\<close>;
  \<^verbatim>\<open>replace\<close> raises \<^verbatim>\<open>ValueError\<close> on an hour or a minute out of range.
\<close>

definition combine :: "nat \<Rightarrow> int \<Rightarrow> int \<Rightarrow> error + datetime" where
  "combine today h m =
     (if 0 \<le> h \<and> h \<le> 23 \<and> 0 \<le> m \<and> m \<le> 59
      then Inr (minutes ((int today * 24 + h) * 60 + m))
      else Inl ValueError)"

text \<open>Lines 221 and 222 (and 252 to 255): a time string read back and put on a date.\<close>

definition read_time :: "nat \<Rightarrow> string \<Rightarrow> error + datetime" where
  "read_time today time_str =
     (case parse_hm time_str of
        Inl e \<Rightarrow> Inl e
      | Inr (h, m) \<Rightarrow> combine today h m)"

definition PRAYER_DURATION_MINUTES :: int where
  "PRAYER_DURATION_MINUTES = 10"

definition JUMUAH_START :: string where
  "JUMUAH_START = ''13:25''"

definition JUMUAH_END :: string where
  "JUMUAH_END = ''14:15''"

definition SCENE_DEFAULT :: string where
  "SCENE_DEFAULT = ''The Masjid App View''"

definition SCENE_PRAYER :: string where
  "SCENE_PRAYER = ''PTZ Camera & Masjid App''"

section \<open>The scheduler and the actuator\<close>

text \<open>
  The callables the program hands to the scheduler, the two kinds of trigger it uses
  (\<^verbatim>\<open>"date"\<close> with a run date, \<^verbatim>\<open>"cron"\<close> with hour and minute), and a job.
\<close>

datatype target = SwitchToPrayer | SwitchToDefault | ScheduleToday

datatype trigger = Date datetime | Cron nat nat

datatype job = Job target trigger

text \<open>
  The effects of the program on its two collaborators, in the order they happen: jobs
  removed from and added to the scheduler, and invocations of \<^verbatim>\<open>switch_scene\<close>.
\<close>

datatype call = RemoveJob string | AddJob string job | SwitchScene string

text \<open>
  The global scheduler's job store, keyed by job id, and the record of all calls so far.
\<close>

record world =
  jobs :: "(string \<times> job) list"
  calls :: "call list"

definition get_jobs :: "world \<Rightarrow> (string \<times> job) list" where
  "get_jobs w = jobs w"

text \<open>\<^verbatim>\<open>scheduler.add_job(func, trigger, ..., id=job_id, replace_existing=True)\<close>.\<close>

definition add_job :: "target \<Rightarrow> trigger \<Rightarrow> string \<Rightarrow> world \<Rightarrow> world" where
  "add_job func trig job_id w =
     w\<lparr>jobs := AList.update job_id (Job func trig) (jobs w),
       calls := calls w @ [AddJob job_id (Job func trig)]\<rparr>"

text \<open>\<^verbatim>\<open>job.remove()\<close> on a job of the store.\<close>

definition remove_job :: "string \<Rightarrow> world \<Rightarrow> world" where
  "remove_job job_id w =
     w\<lparr>jobs := AList.delete job_id (jobs w), calls := calls w @ [RemoveJob job_id]\<rparr>"

text \<open>
  \<^verbatim>\<open>switch_scene\<close> connects to the device and sets the scene inside a \<^verbatim>\<open>try\<close> that catches
  every exception, so it always returns; the call records the invocation.
\<close>

definition switch_scene :: "string \<Rightarrow> world \<Rightarrow> world" where
  "switch_scene scene_name w = w\<lparr>calls := calls w @ [SwitchScene scene_name]\<rparr>"

definition switch_to_prayer :: "world \<Rightarrow> world" where
  "switch_to_prayer w = switch_scene SCENE_PRAYER w"

definition switch_to_default :: "world \<Rightarrow> world" where
  "switch_to_default w = switch_scene SCENE_DEFAULT w"

definition startswith :: "string \<Rightarrow> string \<Rightarrow> bool" where
  "startswith s p = (take (length p) s = p)"

section \<open>The daily cycle\<close>

text \<open>
  What one run of \<^verbatim>\<open>schedule_today\<close> reads from outside: the date of the first clock
  reading (line 194), what the browser shows, the table returned by
  \<^verbatim>\<open>get_manual_iqama_times\<close> (only looked up, so a map), and the second clock reading
  (line 218).
\<close>

record env =
  env_today :: nat
  env_page :: page_obs
  env_manual :: "string \<rightharpoonup> string"
  env_now :: datetime

text \<open>The table as the repository has it: every entry is commented out.\<close>

definition get_manual_iqama_times :: "string \<rightharpoonup> string" where
  "get_manual_iqama_times = Map.empty"

text \<open>
  Lines 200 to 202, over the list \<^verbatim>\<open>get_jobs()\<close> returned; \<open>is_prayer_job\<close> is the
  test of line 201.
\<close>

definition is_prayer_job :: "string \<Rightarrow> bool" where
  "is_prayer_job job_id = (startswith job_id ''prayer_'' \<or> startswith job_id ''jumuah_'')"

fun remove_prayer_jobs :: "(string \<times> job) list \<Rightarrow> world \<Rightarrow> world" where
  "remove_prayer_jobs [] w = w"
| "remove_prayer_jobs ((job_id, j) # js) w =
     remove_prayer_jobs js (if is_prayer_job job_id then remove_job job_id w else w)"

text \<open>Lines 209 to 211.\<close>

fun merge_manual :: "string list \<Rightarrow> (string \<rightharpoonup> string) \<Rightarrow> dict \<Rightarrow> dict" where
  "merge_manual [] manual_times iqama_times = iqama_times"
| "merge_manual (prayer # ps) manual_times iqama_times =
     merge_manual ps manual_times
       (if map_of iqama_times prayer = None
        then (case manual_times prayer of
                Some t \<Rightarrow> AList.update prayer t iqama_times
              | None \<Rightarrow> iqama_times)
        else iqama_times)"

text \<open>
  Lines 220 to 248, over \<^verbatim>\<open>iqama_times.items()\<close>. The time is read back and combined
  with the date before the Friday test, so a \<^verbatim>\<open>ValueError\<close> there leaves the loop and
  the function with the jobs added so far.
\<close>

fun schedule_prayers ::
  "nat \<Rightarrow> datetime \<Rightarrow> bool \<Rightarrow> dict \<Rightarrow> world \<Rightarrow> (error + unit) \<times> world" where
  "schedule_prayers today now is_friday [] w = (Inr (), w)"
| "schedule_prayers today now is_friday ((prayer, time_str) # rest) w =
     (case read_time today time_str of
        Inl e \<Rightarrow> (Inl e, w)
      | Inr prayer_dt \<Rightarrow>
          (let back_dt = prayer_dt + minutes PRAYER_DURATION_MINUTES
           in if is_friday \<and> prayer = ''Dhuhr''
              then schedule_prayers today now is_friday rest w
              else if prayer_dt > now
              then schedule_prayers today now is_friday rest
                     (add_job SwitchToDefault (Date back_dt) (''prayer_end_'' @ prayer)
                       (add_job SwitchToPrayer (Date prayer_dt) (''prayer_start_'' @ prayer) w))
              else schedule_prayers today now is_friday rest w))"

text \<open>Lines 252 to 272, the body of \<^verbatim>\<open>if is_friday\<close>.\<close>

definition schedule_jumuah :: "nat \<Rightarrow> datetime \<Rightarrow> world \<Rightarrow> (error + unit) \<times> world" where
  "schedule_jumuah today now w =
     (case read_time today JUMUAH_START of
        Inl e \<Rightarrow> (Inl e, w)
      | Inr jumuah_start_dt \<Rightarrow>
          (case read_time today JUMUAH_END of
             Inl e \<Rightarrow> (Inl e, w)
           | Inr jumuah_end_dt \<Rightarrow>
               (if jumuah_start_dt > now
                then (Inr (),
                      add_job SwitchToDefault (Date jumuah_end_dt) ''jumuah_end''
                        (add_job SwitchToPrayer (Date jumuah_start_dt) ''jumuah_start'' w))
                else (Inr (), w))))"

text \<open>
  Lines 214 to 277: what \<^verbatim>\<open>schedule_today\<close> does with the merged dictionary. The result
  is \<open>Inl\<close> when an exception leaves the function and \<open>Inr ()\<close> when it returns, by line
  216 or at its end, with the world it leaves.
\<close>

definition schedule_times ::
  "nat \<Rightarrow> datetime \<Rightarrow> bool \<Rightarrow> dict \<Rightarrow> world \<Rightarrow> (error + unit) \<times> world" where
  "schedule_times today now is_friday iqama_times w =
     (if iqama_times = [] then (Inr (), w)
      else (case schedule_prayers today now is_friday iqama_times w of
              (Inl err, w) \<Rightarrow> (Inl err, w)
            | (Inr u, w) \<Rightarrow>
                (case (if is_friday then schedule_jumuah today now w else (Inr (), w)) of
                   (Inl err, w) \<Rightarrow> (Inl err, w)
                 | (Inr u, w) \<Rightarrow> (Inr (), switch_to_default w))))"

text \<open>
  \<^verbatim>\<open>schedule_today\<close>: lines 194 to 212, then \<open>schedule_times\<close>. \<open>merged_times\<close> is the
  dictionary after the merge of line 209, when the scraper returned.
\<close>

definition merged_times :: "env \<Rightarrow> error + dict" where
  "merged_times e =
     (case scrape_iqama_times (env_page e) of
        Inl err \<Rightarrow> Inl err
      | Inr iqama_times \<Rightarrow> Inr (merge_manual PRAYER_NAMES (env_manual e) iqama_times))"

definition schedule_today :: "env \<Rightarrow> world \<Rightarrow> (error + unit) \<times> world" where
  "schedule_today e w =
     (let today = env_today e;
          is_friday = (weekday today = 4);
          w = remove_prayer_jobs (get_jobs w) w
      in case merged_times e of
           Inl err \<Rightarrow> (Inl err, w)
         | Inr iqama_times \<Rightarrow> schedule_times today (env_now e) is_friday iqama_times w)"

text \<open>The calls one cycle makes, after those already recorded.\<close>

definition cycle_calls :: "env \<Rightarrow> world \<Rightarrow> call list" where
  "cycle_calls e w = drop (length (calls w)) (calls (snd (schedule_today e w)))"

text \<open>
  \<^verbatim>\<open>main\<close>: the two recurring triggers are added to the empty store, the cycle runs
  once, and the scheduler starts; from then on each firing of a recurring trigger runs the
  cycle again. \<open>run_cycles\<close> is a sequence of cycles, each from the world the one before
  left. (The scheduler catches what a job raises and goes on; an exception of the first
  cycle, which \<^verbatim>\<open>main\<close> calls itself, ends the program instead.)
\<close>

definition initial_world :: world where
  "initial_world = \<lparr>jobs = [], calls = []\<rparr>"

definition add_refresh_jobs :: "world \<Rightarrow> world" where
  "add_refresh_jobs w =
     add_job ScheduleToday (Cron 12 0) ''midday_refresh''
       (add_job ScheduleToday (Cron 0 5) ''daily_refresh'' w)"

fun run_cycles :: "env list \<Rightarrow> world \<Rightarrow> world" where
  "run_cycles [] w = w"
| "run_cycles (e # es) w = run_cycles es (snd (schedule_today e w))"

section \<open>Notions used in the statements\<close>

text \<open>
  The pattern of line 157, read declaratively: \<open>s\<close> begins with one or two digits
  \<open>g1\<close>, a colon, two digits \<open>g2\<close>, any whitespace, and one of the four markers \<open>g3\<close>;
  anything may follow.
\<close>

definition matches_prefix :: "string \<Rightarrow> string \<Rightarrow> string \<Rightarrow> string \<Rightarrow> bool" where
  "matches_prefix s g1 g2 g3 =
     (\<exists>ws rest. s = g1 @ '':'' @ g2 @ ws @ g3 @ rest
        \<and> (length g1 = 1 \<or> length g1 = 2) \<and> list_all is_digit g1
        \<and> length g2 = 2 \<and> list_all is_digit g2
        \<and> list_all is_space ws
        \<and> g3 \<in> {''AM'', ''PM'', ''am'', ''pm''})"

text \<open>
  The text format the specification expects of the time source (section 6):
  \<^verbatim>\<open>H:MM AM|PM\<close>, case-insensitive, with optional whitespace, and nothing else. This
  definition follows the specification's words, not the code.
\<close>

definition spec_time_text :: "string \<Rightarrow> bool" where
  "spec_time_text s =
     (let t = filter (\<lambda>c. \<not> is_space c) s; n = length t
      in (n = 6 \<or> n = 7)
         \<and> list_all is_digit (take (n - 5) t)
         \<and> take 1 (drop (n - 5) t) = '':''
         \<and> list_all is_digit (take 2 (drop (n - 4) t))
         \<and> (upper (drop (n - 2) t) = ''AM'' \<or> upper (drop (n - 2) t) = ''PM''))"

text \<open>
  A time string that lines 221 and 222 read back without a \<^verbatim>\<open>ValueError\<close>, and a
  dictionary as the cycle needs it: distinct keys, every value readable. \<open>plain_digit\<close>
  is a character that \<^verbatim>\<open>f"{n:02d}"\<close> writes.
\<close>

definition readable :: "string \<Rightarrow> bool" where
  "readable t =
     (case parse_hm t of
        Inl e \<Rightarrow> False
      | Inr (h, m) \<Rightarrow> 0 \<le> h \<and> h \<le> 23 \<and> 0 \<le> m \<and> m \<le> 59)"

definition plain_digit :: "char \<Rightarrow> bool" where
  "plain_digit c =
     (is_digit c \<and> \<not> is_int_space c \<and> c \<noteq> CHR '':'' \<and> c \<noteq> CHR ''-''
      \<and> c \<noteq> CHR ''+'' \<and> c \<noteq> CHR ''_'')"

definition dict_ok :: "dict \<Rightarrow> bool" where
  "dict_ok d = (distinct (map fst d) \<and> list_all (\<lambda>(q, t). readable t) d)"

text \<open>The manual table holds readable times for the names the merge looks up.\<close>

definition manual_readable :: "(string \<rightharpoonup> string) \<Rightarrow> bool" where
  "manual_readable manual_times =
     list_all (\<lambda>prayer. case manual_times prayer of None \<Rightarrow> True | Some t \<Rightarrow> readable t)
       PRAYER_NAMES"

text \<open>
  The manual table as a dictionary: its entries under the names of \<open>PRAYER_NAMES\<close>, in
  that order.
\<close>

definition manual_dict :: "(string \<rightharpoonup> string) \<Rightarrow> dict" where
  "manual_dict manual_times =
     List.map_filter (\<lambda>prayer. map_option (Pair prayer) (manual_times prayer)) PRAYER_NAMES"

text \<open>The start and the end of the Friday window on a date, as lines 252 to 255 compute them.\<close>

definition jumuah_start_dt :: "nat \<Rightarrow> datetime" where
  "jumuah_start_dt today = minutes ((int today * 24 + 13) * 60 + 25)"

definition jumuah_end_dt :: "nat \<Rightarrow> datetime" where
  "jumuah_end_dt today = minutes ((int today * 24 + 14) * 60 + 15)"

text \<open>
  Kinds of calls. \<open>emitted_call is_friday window_ahead\<close> holds of the calls a cycle may
  make after its removals: a job added for one event (never for Dhuhr on a Friday), a job
  of the Friday window (only on a Friday whose window starts after now), and the switch
  to the default scene. \<open>only_prayer_jobs\<close> holds of a call that touches no job but one
  with a \<^verbatim>\<open>prayer_\<close> or \<^verbatim>\<open>jumuah_\<close> id.
\<close>

fun is_remove :: "call \<Rightarrow> bool" where
  "is_remove (RemoveJob job_id) = True"
| "is_remove _ = False"

fun emitted_call :: "bool \<Rightarrow> bool \<Rightarrow> call \<Rightarrow> bool" where
  "emitted_call is_friday window_ahead (AddJob job_id j) =
     (((startswith job_id ''prayer_start_'' \<or> startswith job_id ''prayer_end_'')
        \<and> \<not> (is_friday \<and> (job_id = ''prayer_start_Dhuhr'' \<or> job_id = ''prayer_end_Dhuhr'')))
      \<or> (is_friday \<and> window_ahead \<and> (job_id = ''jumuah_start'' \<or> job_id = ''jumuah_end'')))"
| "emitted_call is_friday window_ahead (SwitchScene scene_name) = (scene_name = SCENE_DEFAULT)"
| "emitted_call is_friday window_ahead (RemoveJob job_id) = False"

fun only_prayer_jobs :: "call \<Rightarrow> bool" where
  "only_prayer_jobs (RemoveJob job_id) = is_prayer_job job_id"
| "only_prayer_jobs (AddJob job_id j) = is_prayer_job job_id"
| "only_prayer_jobs (SwitchScene scene_name) = True"

section \<open>Properties of the time parser\<close>

lemma strip_keeps_prefix:
  assumes "p \<noteq> []" "\<not> is_space (hd p)" "\<not> is_space (last p)"
  shows "\<exists>x. strip (p @ y) = p @ x"
proof -
  have front: "dropWhile is_space (p @ y) = p @ y"
    using assms by (cases p) auto
  have rear: "dropWhile is_space (rev p) = rev p"
    using assms by (cases p rule: rev_cases) auto
  have "\<exists>z. dropWhile is_space (rev y @ rev p) = z @ rev p"
    by (cases "\<forall>c\<in>set (rev y). is_space c") (auto simp: dropWhile_append rear)
  then obtain z where "dropWhile is_space (rev (p @ y)) = z @ rev p"
    by auto
  then have "strip (p @ y) = p @ rev z"
    by (simp add: strip_def front)
  then show ?thesis by blast
qed

lemma normalised_keeps_prefix:
  "\<exists>x. normalised (''1:05 PM'' @ rest) = ''1:05PM'' @ x"
proof -
  have "replace_empty CHR '' '' (replace_empty (CHR 0x0A) (''1:05 PM'' @ rest))
        = ''1:05PM'' @ replace_empty CHR '' '' (replace_empty (CHR 0x0A) rest)"
    by (simp add: replace_empty_def)
  moreover have "\<exists>x. strip (''1:05PM'' @ y) = ''1:05PM'' @ x" for y
    by (rule strip_keeps_prefix) (simp_all add: is_space_def)
  ultimately show ?thesis
    unfolding normalised_def by metis
qed

lemma convert_to_24h_ignores_rest:
  "convert_to_24h (''1:05 PM'' @ rest) = Some ''13:05''"
proof -
  obtain x where x: "normalised (''1:05 PM'' @ rest) = ''1:05PM'' @ x"
    using normalised_keeps_prefix by blast
  have m: "re_match (''1:05PM'' @ x) = Some (''1'', ''05'', ''PM'')"
    by (simp add: is_digit_def is_space_def match_marker_def)
  have u: "upper ''PM'' = ''PM''"
    by code_simp
  have f: "fmt_02d 13 = ''13''" "fmt_02d 5 = ''05''"
    by code_simp+
  have i: "int_of_digits ''1'' = 1" "int_of_digits ''05'' = 5"
    by code_simp+
  show ?thesis
    by (simp only: convert_to_24h_def Let_def x m) (simp add: u f i)
qed

lemma match_marker_sound:
  assumes "match_marker x = Some g3"
  shows "g3 \<in> {''AM'', ''PM'', ''am'', ''pm''} \<and> x = g3 @ drop 2 x"
proof -
  from assms have "take 2 x = g3 \<and> g3 \<in> {''AM'', ''PM'', ''am'', ''pm''}"
    by (auto simp: match_marker_def split: if_splits)
  moreover have "x = take 2 x @ drop 2 x" by simp
  ultimately show ?thesis by metis
qed

lemma match_after_hour_sound:
  assumes "match_after_hour g r = Some (g1, g2, g3)"
  shows "g1 = g \<and> (\<exists>ws rest. r = '':'' @ g2 @ ws @ g3 @ rest
           \<and> length g2 = 2 \<and> list_all is_digit g2 \<and> list_all is_space ws
           \<and> g3 \<in> {''AM'', ''PM'', ''am'', ''pm''})"
proof -
  from assms obtain c m1 m2 r' where r: "r = c # m1 # m2 # r'"
    by (cases "(g, r)" rule: match_after_hour.cases) auto
  from assms r have c: "c = CHR '':''" "is_digit m1" "is_digit m2"
    and mm: "match_marker (dropWhile is_space r') = Some g3" and g: "g1 = g" "g2 = [m1, m2]"
    by (auto split: if_splits option.splits)
  from match_marker_sound[OF mm]
  have g3: "g3 \<in> {''AM'', ''PM'', ''am'', ''pm''}"
    and d: "dropWhile is_space r' = g3 @ drop 2 (dropWhile is_space r')" by auto
  have "r' = takeWhile is_space r' @ dropWhile is_space r'" by simp
  with d have "r' = takeWhile is_space r' @ g3 @ drop 2 (dropWhile is_space r')" by metis
  moreover have "list_all is_space (takeWhile is_space r')"
    by (simp add: list_all_iff) (meson set_takeWhileD)
  ultimately have "r = '':'' @ g2 @ takeWhile is_space r' @ g3 @ drop 2 (dropWhile is_space r')
      \<and> length g2 = 2 \<and> list_all is_digit g2 \<and> list_all is_space (takeWhile is_space r')
      \<and> g3 \<in> {''AM'', ''PM'', ''am'', ''pm''}"
    using r c g g3 by simp
  then show ?thesis using g by blast
qed

lemma re_match_sound:
  assumes "re_match s = Some (g1, g2, g3)"
  shows "matches_prefix s g1 g2 g3"
proof -
  from assms obtain d1 d2 r where s: "s = d1 # d2 # r"
    by (cases s rule: re_match.cases) auto
  from assms s have "is_digit d1" by (auto split: if_splits)
  from assms s consider
      (two) "is_digit d1" "is_digit d2" "match_after_hour [d1, d2] r = Some (g1, g2, g3)"
    | (one) "is_digit d1" "match_after_hour [d1] (d2 # r) = Some (g1, g2, g3)"
    by (auto split: if_splits option.splits)
  then show ?thesis
  proof cases
    case two
    from match_after_hour_sound[OF two(3)] two(1,2) s show ?thesis
      unfolding matches_prefix_def by auto
  next
    case one
    from match_after_hour_sound[OF one(2)] one(1) s show ?thesis
      unfolding matches_prefix_def by auto
  qed
qed

lemma match_marker_complete:
  assumes "g3 \<in> {''AM'', ''PM'', ''am'', ''pm''}" "list_all is_space ws"
  shows "match_marker (dropWhile is_space (ws @ g3 @ rest)) = Some g3"
proof -
  from assms(1) have "g3 \<noteq> []" "\<not> is_space (hd g3)"
    by (auto simp: is_space_def)
  with assms(2) have "dropWhile is_space (ws @ g3 @ rest) = g3 @ rest"
    by (cases g3) (auto simp: list_all_iff dropWhile_append)
  with assms(1) show ?thesis
    by (auto simp: match_marker_def)
qed

lemma re_match_complete:
  assumes "matches_prefix s g1 g2 g3"
  shows "re_match s = Some (g1, g2, g3)"
proof -
  from assms obtain ws rest where s: "s = g1 @ '':'' @ g2 @ ws @ g3 @ rest"
    and l1: "length g1 = 1 \<or> length g1 = 2" and d1: "list_all is_digit g1"
    and l2: "length g2 = 2" and d2: "list_all is_digit g2"
    and w: "list_all is_space ws" and g3: "g3 \<in> {''AM'', ''PM'', ''am'', ''pm''}"
    unfolding matches_prefix_def by blast
  from l2 obtain m1 m2 where g2: "g2 = [m1, m2]"
    by (cases g2; cases "tl g2") auto
  have mm: "match_marker (dropWhile is_space (ws @ g3 @ rest)) = Some g3"
    by (rule match_marker_complete[OF g3 w])
  have nd: "\<not> is_digit CHR '':''" by (simp add: is_digit_def)
  from l1 show ?thesis
  proof
    assume "length g1 = 1"
    then obtain d where "g1 = [d]" by (cases g1) auto
    with s g2 d1 d2 mm nd show ?thesis by simp
  next
    assume "length g1 = 2"
    then obtain a b where "g1 = [a, b]" by (cases g1; cases "tl g1") auto
    with s g2 d1 d2 mm show ?thesis by simp
  qed
qed

lemma convert_to_24h_cases:
  "convert_to_24h s = None \<or>
   (\<exists>g1 g2 g3 h m. matches_prefix (normalised s) g1 g2 g3 \<and> 0 \<le> h \<and> h \<le> 23 \<and> 0 \<le> m \<and> m \<le> 59
      \<and> convert_to_24h s = Some (fmt_02d h @ '':'' @ fmt_02d m))"
proof (cases "re_match (normalised s)")
  case None
  then show ?thesis by (simp add: convert_to_24h_def)
next
  case (Some g)
  obtain g1 g2 g3 where g: "g = (g1, g2, g3)" by (cases g) auto
  from Some g have mp: "matches_prefix (normalised s) g1 g2 g3"
    by (simp add: re_match_sound)
  show ?thesis
  proof (cases "convert_to_24h s")
    case None
    then show ?thesis by simp
  next
    case (Some t)
    with \<open>re_match (normalised s) = Some g\<close> g
    have "\<exists>h m. 0 \<le> h \<and> h \<le> 23 \<and> 0 \<le> m \<and> m \<le> 59 \<and> t = fmt_02d h @ '':'' @ fmt_02d m"
      by (auto simp: convert_to_24h_def Let_def split: if_splits)
    with mp Some show ?thesis by blast
  qed
qed

lemma upper_markers:
  "upper ''AM'' = ''AM''" "upper ''PM'' = ''PM''" "upper ''am'' = ''AM''" "upper ''pm'' = ''PM''"
  by code_simp+

lemma convert_to_24h_matched:
  assumes "matches_prefix (normalised s) g1 g2 g3"
  shows "convert_to_24h s =
           (let h12 = int_of_digits g1; m = int_of_digits g2;
                h = (if g3 = ''PM'' \<or> g3 = ''pm'' then (if h12 = 12 then 12 else h12 + 12)
                     else (if h12 = 12 then 0 else h12))
            in if 0 \<le> h \<and> h \<le> 23 \<and> 0 \<le> m \<and> m \<le> 59
               then Some (fmt_02d h @ '':'' @ fmt_02d m) else None)"
proof -
  from assms have g3: "g3 = ''AM'' \<or> g3 = ''PM'' \<or> g3 = ''am'' \<or> g3 = ''pm''"
    unfolding matches_prefix_def by auto
  have m: "re_match (normalised s) = Some (g1, g2, g3)"
    by (rule re_match_complete[OF assms])
  from g3 show ?thesis
    by (elim disjE) (simp_all add: convert_to_24h_def m upper_markers Let_def)
qed

lemma convert_to_24h_unmatched:
  assumes "\<forall>g1 g2 g3. \<not> matches_prefix (normalised s) g1 g2 g3"
  shows "convert_to_24h s = None"
proof (cases "re_match (normalised s)")
  case None
  then show ?thesis by (simp add: convert_to_24h_def)
next
  case (Some g)
  obtain g1 g2 g3 where "g = (g1, g2, g3)" by (cases g) auto
  with Some assms re_match_sound[of "normalised s" g1 g2 g3] show ?thesis by simp
qed

section \<open>Times written by the parser are read back\<close>

lemma digit_char:
  assumes "k < 10"
  shows "plain_digit (char_of (48 + k :: nat)) \<and> digit_val (char_of (48 + k)) = int k"
  using assms
  by (simp add: plain_digit_def is_digit_def is_int_space_def digit_val_def char_of_eq_iff take_bit_eq_mod)

lemma fmt_02d_digits:
  assumes "0 \<le> n" "n \<le> 99"
  shows "\<exists>a b. fmt_02d n = [a, b] \<and> plain_digit a \<and> plain_digit b \<and> 10 * digit_val a + digit_val b = n"
proof -
  from assms have small: "nat (n div 10) < 10" "nat (n mod 10) < 10"
    and nonneg: "0 \<le> n div 10" "0 \<le> n mod 10"
    by auto
  from digit_char[OF small(1)] digit_char[OF small(2)] nonneg show ?thesis
    by (simp add: fmt_02d_def)
qed

lemma py_int_two_digits:
  assumes "plain_digit a" "plain_digit b"
  shows "py_int [a, b] = Some (10 * digit_val a + digit_val b)"
  using assms
  by (simp add: py_int_def plain_digit_def replace_empty_def int_of_digits_def)

lemma parse_hm_two_fields:
  assumes "plain_digit a" "plain_digit b" "plain_digit c" "plain_digit d"
  shows "parse_hm [a, b, CHR '':'', c, d] = Inr (10 * digit_val a + digit_val b, 10 * digit_val c + digit_val d)"
proof -
  have sp: "split_on CHR '':'' [a, b, CHR '':'', c, d] = [[a, b], [c, d]]"
    using assms by (simp add: plain_digit_def)
  show ?thesis
    unfolding parse_hm_def sp
    by (simp add: py_int_two_digits[OF assms(1,2)] py_int_two_digits[OF assms(3,4)])
qed

lemma parse_hm_fmt:
  assumes "0 \<le> h" "h \<le> 23" "0 \<le> m" "m \<le> 59"
  shows "parse_hm (fmt_02d h @ '':'' @ fmt_02d m) = Inr (h, m)"
proof -
  from assms obtain a b where h: "fmt_02d h = [a, b]" "plain_digit a" "plain_digit b" "10 * digit_val a + digit_val b = h"
    using fmt_02d_digits[of h] by auto
  from assms obtain c d where m: "fmt_02d m = [c, d]" "plain_digit c" "plain_digit d" "10 * digit_val c + digit_val d = m"
    using fmt_02d_digits[of m] by auto
  from parse_hm_two_fields[OF h(2,3) m(2,3)] h m show ?thesis by simp
qed

lemma convert_to_24h_readable:
  assumes "convert_to_24h s = Some t"
  shows "readable t"
proof -
  from convert_to_24h_cases[of s] assms obtain h m where
    "0 \<le> h" "h \<le> 23" "0 \<le> m" "m \<le> 59" "t = fmt_02d h @ '':'' @ fmt_02d m" by auto
  then show ?thesis using parse_hm_fmt[of h m] by (simp add: readable_def)
qed

lemma readable_read_time:
  "readable t \<longleftrightarrow> (\<exists>dt. read_time today t = Inr dt)"
  by (auto simp: readable_def read_time_def combine_def split: sum.splits)

section \<open>The job store\<close>

lemma map_of_add_job:
  "map_of (jobs (add_job func trig job_id w)) k =
     (if k = job_id then Some (Job func trig) else map_of (jobs w) k)"
  by (simp add: add_job_def update_conv')

lemma calls_add_job: "calls (add_job func trig job_id w) = calls w @ [AddJob job_id (Job func trig)]"
  by (simp add: add_job_def)

lemma jobs_remove_prayer_jobs:
  "jobs (remove_prayer_jobs js w) =
     filter (\<lambda>(k, j). \<not> (is_prayer_job k \<and> k \<in> fst ` set js)) (jobs w)"
proof (induction js arbitrary: w)
  case Nil
  then show ?case by simp
next
  case (Cons a js)
  obtain job_id j where a: "a = (job_id, j)" by (cases a)
  show ?case
    unfolding a
    by (auto simp: Cons.IH remove_job_def AList.delete_eq intro!: filter_cong)
qed

lemma calls_remove_prayer_jobs:
  "calls (remove_prayer_jobs js w) = calls w @ map RemoveJob (filter is_prayer_job (map fst js))"
  by (induction js arbitrary: w) (auto simp: remove_job_def)

lemma map_of_filter_keys:
  "map_of (filter (\<lambda>(k, j). P k) xs) k = (if P k then map_of xs k else None)"
  by (induction xs) auto

lemma map_of_jobs_removed:
  "map_of (jobs (remove_prayer_jobs (get_jobs w) w)) k =
     (if is_prayer_job k then None else map_of (jobs w) k)"
proof -
  have "jobs (remove_prayer_jobs (jobs w) w) = filter (\<lambda>(k, j). \<not> is_prayer_job k) (jobs w)"
    unfolding jobs_remove_prayer_jobs
    by (rule filter_cong) (auto simp: rev_image_eqI)
  then show ?thesis
    by (simp add: get_jobs_def map_of_filter_keys)
qed

lemma jobs_switch_to_default: "jobs (switch_to_default w) = jobs w"
  by (simp add: switch_to_default_def switch_scene_def)

lemma calls_switch_to_default: "calls (switch_to_default w) = calls w @ [SwitchScene SCENE_DEFAULT]"
  by (simp add: switch_to_default_def switch_scene_def)

lemma startswith_prefix:
  assumes "startswith s (p @ q)"
  shows "startswith s p"
proof -
  have "take (length p) s = take (length p) (take (length (p @ q)) s)"
    by (simp add: min_def)
  also have "\<dots> = take (length p) (p @ q)"
    using assms by (simp add: startswith_def)
  also have "\<dots> = p"
    by simp
  finally show ?thesis
    by (simp add: startswith_def)
qed

lemma prayer_prefixes:
  "startswith s ''prayer_start_'' \<Longrightarrow> is_prayer_job s"
  "startswith s ''prayer_end_'' \<Longrightarrow> is_prayer_job s"
  "is_prayer_job ''jumuah_start''" "is_prayer_job ''jumuah_end''"
  using startswith_prefix[of s "''prayer_''" "''start_''"]
    startswith_prefix[of s "''prayer_''" "''end_''"]
  by (simp_all add: is_prayer_job_def) (simp_all add: startswith_def)

lemma prayer_ids_differ:
  "''prayer_start_'' @ p \<noteq> ''prayer_end_'' @ q"
  "''prayer_end_'' @ p \<noteq> ''prayer_start_'' @ q"
  "(''prayer_start_'' @ p = ''prayer_start_'' @ q) = (p = q)"
  "(''prayer_end_'' @ p = ''prayer_end_'' @ q) = (p = q)"
  by simp_all

lemma refresh_ids: "\<not> is_prayer_job ''daily_refresh''" "\<not> is_prayer_job ''midday_refresh''"
  by (simp_all add: is_prayer_job_def startswith_def)

section \<open>The loop over the merged dictionary\<close>

lemma pair_list_induct:
  assumes "P []" "\<And>k v xs. P xs \<Longrightarrow> P ((k, v) # xs)"
  shows "P xs"
  using assms by (induction xs) auto

lemma schedule_prayers_raise:
  "read_time today time_str = Inl err \<Longrightarrow>
   schedule_prayers today now is_friday ((prayer, time_str) # rest) w = (Inl err, w)"
  by simp

lemma schedule_prayers_skip:
  "read_time today time_str = Inr prayer_dt \<Longrightarrow>
   (is_friday \<and> prayer = ''Dhuhr'') \<or> \<not> prayer_dt > now \<Longrightarrow>
   schedule_prayers today now is_friday ((prayer, time_str) # rest) w =
     schedule_prayers today now is_friday rest w"
  by (auto simp: Let_def)

lemma schedule_prayers_add:
  "read_time today time_str = Inr prayer_dt \<Longrightarrow>
   \<not> (is_friday \<and> prayer = ''Dhuhr'') \<Longrightarrow> prayer_dt > now \<Longrightarrow>
   schedule_prayers today now is_friday ((prayer, time_str) # rest) w =
     schedule_prayers today now is_friday rest
       (add_job SwitchToDefault (Date (prayer_dt + minutes PRAYER_DURATION_MINUTES))
          (''prayer_end_'' @ prayer)
          (add_job SwitchToPrayer (Date prayer_dt) (''prayer_start_'' @ prayer) w))"
  by (auto simp: Let_def)

lemma schedule_prayers_step:
  obtains
    (raises) err where "read_time today time_str = Inl err"
      "schedule_prayers today now is_friday ((prayer, time_str) # rest) w = (Inl err, w)"
  | (skips) prayer_dt where "read_time today time_str = Inr prayer_dt"
      "(is_friday \<and> prayer = ''Dhuhr'') \<or> \<not> prayer_dt > now"
      "schedule_prayers today now is_friday ((prayer, time_str) # rest) w =
         schedule_prayers today now is_friday rest w"
  | (adds) prayer_dt where "read_time today time_str = Inr prayer_dt"
      "\<not> (is_friday \<and> prayer = ''Dhuhr'')" "prayer_dt > now"
      "schedule_prayers today now is_friday ((prayer, time_str) # rest) w =
         schedule_prayers today now is_friday rest
           (add_job SwitchToDefault (Date (prayer_dt + minutes PRAYER_DURATION_MINUTES))
              (''prayer_end_'' @ prayer)
              (add_job SwitchToPrayer (Date prayer_dt) (''prayer_start_'' @ prayer) w))"
proof (cases "read_time today time_str")
  case (Inl err)
  from raises[OF Inl schedule_prayers_raise[OF Inl]] show ?thesis .
next
  case (Inr prayer_dt)
  show ?thesis
  proof (cases "(is_friday \<and> prayer = ''Dhuhr'') \<or> \<not> prayer_dt > now")
    case True
    from skips[OF Inr True schedule_prayers_skip[OF Inr True]] show ?thesis .
  next
    case False
    then have nf: "\<not> (is_friday \<and> prayer = ''Dhuhr'')" and gt: "prayer_dt > now"
      by auto
    from adds[OF Inr nf gt schedule_prayers_add[OF Inr nf gt]] show ?thesis .
  qed
qed

lemma schedule_prayers_calls:
  "\<exists>X. calls (snd (schedule_prayers today now is_friday xs w)) = calls w @ X
        \<and> list_all (emitted_call is_friday window_ahead) X"
proof (induction xs arbitrary: w rule: pair_list_induct)
  case 1
  then show ?case by simp
next
  case (2 prayer time_str xs)
  show ?case
  proof (cases rule: schedule_prayers_step[of today time_str now is_friday prayer xs w])
    case (raises err)
    then show ?thesis by simp
  next
    case (skips prayer_dt)
    then show ?thesis using "2.IH"[of w] by simp
  next
    case (adds prayer_dt)
    let ?A = "[AddJob (''prayer_start_'' @ prayer) (Job SwitchToPrayer (Date prayer_dt)),
               AddJob (''prayer_end_'' @ prayer)
                 (Job SwitchToDefault (Date (prayer_dt + minutes PRAYER_DURATION_MINUTES)))]"
    let ?w' = "add_job SwitchToDefault (Date (prayer_dt + minutes PRAYER_DURATION_MINUTES))
                 (''prayer_end_'' @ prayer)
                 (add_job SwitchToPrayer (Date prayer_dt) (''prayer_start_'' @ prayer) w)"
    from "2.IH"[of ?w'] obtain X where
      X: "calls (snd (schedule_prayers today now is_friday xs ?w')) = calls ?w' @ X"
         "list_all (emitted_call is_friday window_ahead) X"
      by blast
    have c: "calls ?w' = calls w @ ?A"
      by (simp add: calls_add_job)
    have e: "list_all (emitted_call is_friday window_ahead) ?A"
      using adds(2) by (auto simp: startswith_def)
    have "calls (snd (schedule_prayers today now is_friday ((prayer, time_str) # xs) w))
            = calls w @ (?A @ X)"
      unfolding adds(4) X(1) c by simp
    moreover have "list_all (emitted_call is_friday window_ahead) (?A @ X)"
      using e X(2) by simp
    ultimately show ?thesis by blast
  qed
qed

lemma schedule_prayers_frame:
  assumes "\<forall>q\<in>fst ` set xs. (is_friday \<and> q = ''Dhuhr'')
             \<or> (job_id \<noteq> ''prayer_start_'' @ q \<and> job_id \<noteq> ''prayer_end_'' @ q)"
  shows "map_of (jobs (snd (schedule_prayers today now is_friday xs w))) job_id = map_of (jobs w) job_id"
  using assms
proof (induction xs arbitrary: w rule: pair_list_induct)
  case 1
  then show ?case by simp
next
  case (2 prayer time_str xs)
  from "2.prems" have rest: "\<forall>q\<in>fst ` set xs. (is_friday \<and> q = ''Dhuhr'')
             \<or> (job_id \<noteq> ''prayer_start_'' @ q \<and> job_id \<noteq> ''prayer_end_'' @ q)"
    by simp
  from "2.prems" have this_one: "(is_friday \<and> prayer = ''Dhuhr'')
             \<or> (job_id \<noteq> ''prayer_start_'' @ prayer \<and> job_id \<noteq> ''prayer_end_'' @ prayer)"
    by simp
  show ?case
  proof (cases rule: schedule_prayers_step[of today time_str now is_friday prayer xs w])
    case (raises err)
    then show ?thesis by simp
  next
    case (skips prayer_dt)
    then show ?thesis using "2.IH"[OF rest, of w] by simp
  next
    case (adds prayer_dt)
    with this_one have ne: "job_id \<noteq> ''prayer_start_'' @ prayer" "job_id \<noteq> ''prayer_end_'' @ prayer"
      by auto
    show ?thesis
      unfolding adds(4) "2.IH"[OF rest] using ne by (simp only: map_of_add_job if_False)
  qed
qed

lemma schedule_prayers_returns:
  assumes "list_all (\<lambda>(q, t). readable t) xs"
  shows "fst (schedule_prayers today now is_friday xs w) = Inr ()"
  using assms
proof (induction xs arbitrary: w rule: pair_list_induct)
  case 1
  then show ?case by simp
next
  case (2 prayer time_str xs)
  from "2.prems" have r: "readable time_str" and rest: "list_all (\<lambda>(q, t). readable t) xs"
    by auto
  show ?case
  proof (cases rule: schedule_prayers_step[of today time_str now is_friday prayer xs w])
    case (raises err)
    with r show ?thesis using readable_read_time[of time_str today] by simp
  next
    case (skips prayer_dt)
    then show ?thesis using "2.IH"[OF rest, of w] by simp
  next
    case (adds prayer_dt)
    show ?thesis unfolding adds(4) by (rule "2.IH"[OF rest])
  qed
qed

lemma schedule_prayers_effect:
  assumes "distinct (map fst xs)" "(prayer, time_str) \<in> set xs"
    and "list_all (\<lambda>(q, t). readable t) xs"
    and "\<not> (is_friday \<and> prayer = ''Dhuhr'')"
    and "read_time today time_str = Inr prayer_dt"
  shows "map_of (jobs (snd (schedule_prayers today now is_friday xs w))) (''prayer_start_'' @ prayer)
           = (if prayer_dt > now then Some (Job SwitchToPrayer (Date prayer_dt))
              else map_of (jobs w) (''prayer_start_'' @ prayer))
       \<and> map_of (jobs (snd (schedule_prayers today now is_friday xs w))) (''prayer_end_'' @ prayer)
           = (if prayer_dt > now
              then Some (Job SwitchToDefault (Date (prayer_dt + minutes PRAYER_DURATION_MINUTES)))
              else map_of (jobs w) (''prayer_end_'' @ prayer))"
  using assms(1,2,3)
proof (induction xs arbitrary: w rule: pair_list_induct)
  case 1
  then show ?case by simp
next
  case (2 q t xs)
  show ?case
  proof (cases "q = prayer")
    case True
    with "2.prems" have t: "t = time_str" and notin: "prayer \<notin> fst ` set xs"
      by (auto simp: rev_image_eqI)
    have fr: "\<forall>q\<in>fst ` set xs. (is_friday \<and> q = ''Dhuhr'')
             \<or> (''prayer_start_'' @ prayer \<noteq> ''prayer_start_'' @ q \<and> ''prayer_start_'' @ prayer \<noteq> ''prayer_end_'' @ q)"
      using notin by auto
    have fr2: "\<forall>q\<in>fst ` set xs. (is_friday \<and> q = ''Dhuhr'')
             \<or> (''prayer_end_'' @ prayer \<noteq> ''prayer_start_'' @ q \<and> ''prayer_end_'' @ prayer \<noteq> ''prayer_end_'' @ q)"
      using notin by auto
    show ?thesis
    proof (cases rule: schedule_prayers_step[of today t now is_friday q xs w])
      case (raises err)
      with assms(5) t show ?thesis by simp
    next
      case (skips dt)
      with assms(4,5) t True have "\<not> prayer_dt > now" by auto
      then show ?thesis
        unfolding skips(3) schedule_prayers_frame[OF fr] schedule_prayers_frame[OF fr2] by simp
    next
      case (adds dt)
      with assms(5) t have dt: "dt = prayer_dt" "prayer_dt > now" by auto
      show ?thesis
        unfolding adds(4) schedule_prayers_frame[OF fr] schedule_prayers_frame[OF fr2]
        using dt by (simp add: True map_of_add_job)
    qed
  next
    case False
    with "2.prems" have mem: "(prayer, time_str) \<in> set xs" and d: "distinct (map fst xs)"
      and r: "list_all (\<lambda>(q, t). readable t) xs" and rt: "readable t"
      by auto
    show ?thesis
    proof (cases rule: schedule_prayers_step[of today t now is_friday q xs w])
      case (raises err)
      with rt show ?thesis using readable_read_time[of t today] by simp
    next
      case (skips dt)
      show ?thesis unfolding skips(3) by (rule "2.IH"[OF d mem r])
    next
      case (adds dt)
      show ?thesis
        unfolding adds(4)
        using "2.IH"[OF d mem r] False by (simp add: map_of_add_job)
    qed
  qed
qed

section \<open>The Friday window and the end of the cycle\<close>

lemma parse_hm_JUMUAH:
  "parse_hm JUMUAH_START = Inr (13, 25)" "parse_hm JUMUAH_END = Inr (14, 15)"
  by code_simp+

lemma read_time_JUMUAH:
  "read_time today JUMUAH_START = Inr (jumuah_start_dt today)"
  "read_time today JUMUAH_END = Inr (jumuah_end_dt today)"
  by (simp_all add: read_time_def parse_hm_JUMUAH combine_def jumuah_start_dt_def jumuah_end_dt_def)

lemma schedule_jumuah_eq:
  "schedule_jumuah today now w =
     (Inr (), if jumuah_start_dt today > now
              then add_job SwitchToDefault (Date (jumuah_end_dt today)) ''jumuah_end''
                     (add_job SwitchToPrayer (Date (jumuah_start_dt today)) ''jumuah_start'' w)
              else w)"
  by (simp add: schedule_jumuah_def read_time_JUMUAH)

lemma schedule_times_cases:
  obtains
    (empty) "iqama_times = []" "schedule_times today now is_friday iqama_times w = (Inr (), w)"
  | (raises) err where "iqama_times \<noteq> []"
      "fst (schedule_prayers today now is_friday iqama_times w) = Inl err"
      "schedule_times today now is_friday iqama_times w =
         (Inl err, snd (schedule_prayers today now is_friday iqama_times w))"
  | (window) "iqama_times \<noteq> []"
      "fst (schedule_prayers today now is_friday iqama_times w) = Inr ()"
      "is_friday" "jumuah_start_dt today > now"
      "schedule_times today now is_friday iqama_times w =
         (Inr (), switch_to_default
            (add_job SwitchToDefault (Date (jumuah_end_dt today)) ''jumuah_end''
               (add_job SwitchToPrayer (Date (jumuah_start_dt today)) ''jumuah_start''
                  (snd (schedule_prayers today now is_friday iqama_times w)))))"
  | (plain) "iqama_times \<noteq> []"
      "fst (schedule_prayers today now is_friday iqama_times w) = Inr ()"
      "\<not> (is_friday \<and> jumuah_start_dt today > now)"
      "schedule_times today now is_friday iqama_times w =
         (Inr (), switch_to_default (snd (schedule_prayers today now is_friday iqama_times w)))"
proof (cases "iqama_times = []")
  case True
  then have "schedule_times today now is_friday iqama_times w = (Inr (), w)"
    by (simp add: schedule_times_def)
  with True show ?thesis by (rule empty)
next
  case False
  obtain r w' where p: "schedule_prayers today now is_friday iqama_times w = (r, w')"
    by (cases "schedule_prayers today now is_friday iqama_times w")
  show ?thesis
  proof (cases r)
    case (Inl err)
    have "schedule_times today now is_friday iqama_times w =
         (Inl err, snd (schedule_prayers today now is_friday iqama_times w))"
      using False p Inl by (simp add: schedule_times_def)
    with False p Inl show ?thesis using raises by simp
  next
    case (Inr u)
    show ?thesis
    proof (cases "is_friday \<and> jumuah_start_dt today > now")
      case True
      have "schedule_times today now is_friday iqama_times w =
         (Inr (), switch_to_default
            (add_job SwitchToDefault (Date (jumuah_end_dt today)) ''jumuah_end''
               (add_job SwitchToPrayer (Date (jumuah_start_dt today)) ''jumuah_start''
                  (snd (schedule_prayers today now is_friday iqama_times w)))))"
        using False p Inr True by (simp add: schedule_times_def schedule_jumuah_eq)
      with False p Inr True show ?thesis using window by simp
    next
      case nw: False
      have "schedule_times today now is_friday iqama_times w =
         (Inr (), switch_to_default (snd (schedule_prayers today now is_friday iqama_times w)))"
        using False p Inr nw by (auto simp: schedule_times_def schedule_jumuah_eq)
      with False p Inr nw show ?thesis using plain by simp
    qed
  qed
qed

lemma schedule_times_calls:
  "\<exists>X. calls (snd (schedule_times today now is_friday xs w)) = calls w @ X
        \<and> list_all (emitted_call is_friday (jumuah_start_dt today > now)) X"
proof -
  let ?win = "jumuah_start_dt today > now"
  from schedule_prayers_calls[of today now is_friday xs w ?win] obtain X where
    X: "calls (snd (schedule_prayers today now is_friday xs w)) = calls w @ X"
       "list_all (emitted_call is_friday ?win) X"
    by blast
  show ?thesis
  proof (cases rule: schedule_times_cases[of xs today now is_friday w])
    case empty
    then show ?thesis by simp
  next
    case (raises err)
    with X show ?thesis by auto
  next
    case window
    let ?J = "[AddJob ''jumuah_start'' (Job SwitchToPrayer (Date (jumuah_start_dt today))),
               AddJob ''jumuah_end'' (Job SwitchToDefault (Date (jumuah_end_dt today))),
               SwitchScene SCENE_DEFAULT]"
    have "calls (snd (schedule_times today now is_friday xs w)) = calls w @ (X @ ?J)"
      unfolding window(5) by (simp add: calls_switch_to_default calls_add_job X(1))
    moreover have "list_all (emitted_call is_friday ?win) (X @ ?J)"
      using X(2) window(3,4) by simp
    ultimately show ?thesis by blast
  next
    case plain
    have "calls (snd (schedule_times today now is_friday xs w)) = calls w @ (X @ [SwitchScene SCENE_DEFAULT])"
      unfolding plain(4) by (simp add: calls_switch_to_default X(1))
    moreover have "list_all (emitted_call is_friday ?win) (X @ [SwitchScene SCENE_DEFAULT])"
      using X(2) by simp
    ultimately show ?thesis by blast
  qed
qed

lemma schedule_times_jobs:
  assumes "job_id \<noteq> ''jumuah_start''" "job_id \<noteq> ''jumuah_end''"
  shows "map_of (jobs (snd (schedule_times today now is_friday xs w))) job_id =
         map_of (jobs (snd (schedule_prayers today now is_friday xs w))) job_id"
  by (cases rule: schedule_times_cases[of xs today now is_friday w])
     (use assms in \<open>simp_all add: jobs_switch_to_default map_of_add_job\<close>)

lemma schedule_times_jumuah_jobs:
  assumes "job_id = ''jumuah_start'' \<or> job_id = ''jumuah_end''"
    and "\<not> (is_friday \<and> jumuah_start_dt today > now)"
  shows "map_of (jobs (snd (schedule_times today now is_friday xs w))) job_id = map_of (jobs w) job_id"
proof -
  have fr: "\<forall>q\<in>fst ` set xs. (is_friday \<and> q = ''Dhuhr'')
              \<or> (job_id \<noteq> ''prayer_start_'' @ q \<and> job_id \<noteq> ''prayer_end_'' @ q)"
    using assms(1) by auto
  show ?thesis
    by (cases rule: schedule_times_cases[of xs today now is_friday w])
       (use assms(2) in \<open>simp_all add: jobs_switch_to_default schedule_prayers_frame[OF fr]\<close>)
qed

lemma schedule_times_returns:
  assumes "list_all (\<lambda>(q, t). readable t) xs"
  shows "fst (schedule_times today now is_friday xs w) = Inr ()"
  by (cases rule: schedule_times_cases[of xs today now is_friday w])
     (use schedule_prayers_returns[OF assms, of today now is_friday w] in simp_all)

section \<open>The scraper and the merge\<close>

lemma dict_ok_update:
  assumes "dict_ok d" "readable t"
  shows "dict_ok (AList.update k t d)"
proof -
  have "set (AList.update k t d) \<subseteq> insert (k, t) (set d)"
    by (induction d) auto
  with assms show ?thesis
    by (auto simp: dict_ok_def distinct_update list_all_iff)
qed

lemma scrape_label_ok:
  assumes "dict_ok d"
  shows "dict_ok (snd (scrape_label l d))"
proof (cases l)
  case LabelRaises
  with assms show ?thesis by simp
next
  case (Label label_text the_card)
  show ?thesis
    using assms dict_ok_update[OF assms convert_to_24h_readable]
    by (auto simp: Label Let_def split: card_obs.splits time_obs.splits option.splits)
qed

lemma scrape_labels_ok:
  "dict_ok d \<Longrightarrow> dict_ok (snd (scrape_labels ls d))"
proof (induction ls arbitrary: d)
  case Nil
  then show ?case by simp
next
  case (Cons l ls)
  obtain r d' where s: "scrape_label l d = (r, d')" by (cases "scrape_label l d")
  with scrape_label_ok[OF Cons.prems, of l] have "dict_ok d'" by simp
  with Cons.IH[of d'] s show ?case
    using Cons.prems by (cases r) auto
qed

lemma scrape_labels_append:
  "scrape_labels (ls1 @ ls2) d =
     (case scrape_labels ls1 d of
        (Inl e, d') \<Rightarrow> (Inl e, d')
      | (Inr u, d') \<Rightarrow> scrape_labels ls2 d')"
  by (induction ls1 arbitrary: d) (auto split: prod.splits sum.splits)

lemma scrape_iqama_times_Inr: "scrape_iqama_times page = Inr (snd (scrape_try page))"
  by (cases "scrape_try page"; cases "fst (scrape_try page)") (auto simp: scrape_iqama_times_def)

lemma scrape_try_ok: "dict_ok (snd (scrape_try page))"
proof (cases page)
  case PageRaises
  then show ?thesis by (simp add: scrape_try_def dict_ok_def)
next
  case (Page ls closes)
  have "dict_ok (snd (scrape_labels ls []))"
    by (rule scrape_labels_ok) (simp add: dict_ok_def)
  then show ?thesis
    by (auto simp: Page scrape_try_def split: prod.splits sum.splits)
qed

lemma merge_manual_ok:
  assumes "dict_ok d"
    and "list_all (\<lambda>prayer. case manual_times prayer of None \<Rightarrow> True | Some t \<Rightarrow> readable t) ps"
  shows "dict_ok (merge_manual ps manual_times d)"
  using assms
proof (induction ps arbitrary: d)
  case Nil
  then show ?case by simp
next
  case (Cons p ps)
  then show ?case
    by (auto simp: dict_ok_update split: option.splits)
qed

lemma map_of_merge_manual:
  "map_of (merge_manual ps manual_times d) p =
     (case map_of d p of
        Some t \<Rightarrow> Some t
      | None \<Rightarrow> if p \<in> set ps then manual_times p else None)"
proof (induction ps arbitrary: d)
  case Nil
  then show ?case by (simp split: option.splits)
next
  case (Cons a ps)
  show ?case
    by (auto simp: Cons.IH update_conv' split: option.splits)
qed

lemma merged_times_Inr:
  "merged_times e = Inr (merge_manual PRAYER_NAMES (env_manual e) (snd (scrape_try (env_page e))))"
  by (simp add: merged_times_def scrape_iqama_times_Inr)

lemma merged_times_ok:
  assumes "manual_readable (env_manual e)" "merged_times e = Inr iqama_times"
  shows "dict_ok iqama_times"
  using assms merge_manual_ok[OF scrape_try_ok, of "env_manual e" PRAYER_NAMES "env_page e"]
  by (simp add: merged_times_Inr manual_readable_def)

lemma update_new_key:
  "k \<notin> fst ` set d \<Longrightarrow> AList.update k v d = d @ [(k, v)]"
  by (induction d) auto

lemma merge_manual_fresh:
  assumes "distinct ps" "set ps \<inter> fst ` set d = {}"
  shows "merge_manual ps manual_times d =
           d @ List.map_filter (\<lambda>prayer. map_option (Pair prayer) (manual_times prayer)) ps"
  using assms
proof (induction ps arbitrary: d)
  case Nil
  then show ?case by (simp add: List.map_filter_simps)
next
  case (Cons p ps)
  from Cons.prems have fresh: "p \<notin> fst ` set d" and none: "map_of d p = None"
    by (auto simp: map_of_eq_None_iff)
  show ?case
  proof (cases "manual_times p")
    case None
    with Cons.prems none show ?thesis
      by (simp add: Cons.IH List.map_filter_simps)
  next
    case (Some t)
    from Cons.prems have "distinct ps" "set ps \<inter> fst ` set (d @ [(p, t)]) = {}"
      by auto
    from Cons.IH[OF this] none Some show ?thesis
      by (simp add: update_new_key[OF fresh] List.map_filter_simps)
  qed
qed

lemma merge_manual_empty:
  "merge_manual PRAYER_NAMES manual_times [] = manual_dict manual_times"
proof -
  have "distinct PRAYER_NAMES"
    by (simp add: PRAYER_NAMES_def)
  then show ?thesis
    by (simp add: merge_manual_fresh manual_dict_def)
qed

lemma scrape_label_raise_keeps:
  "fst (scrape_label l d) = Inl err \<Longrightarrow> snd (scrape_label l d) = d"
  by (cases l)
     (auto simp: Let_def split: if_splits card_obs.splits time_obs.splits option.splits)

lemma scrape_label_unparsed:
  "convert_to_24h (strip raw) = None \<Longrightarrow>
   scrape_label (Label name (IqamaLabel (TimeElement raw))) d = (Inr (), d)"
  by (simp add: Let_def)

lemma scrape_label_keys:
  "fst ` set d \<subseteq> fst ` set (snd (scrape_label l d))"
  by (cases l)
     (auto simp: Let_def dom_update split: if_splits card_obs.splits time_obs.splits option.splits)

lemma scrape_labels_keys:
  "fst ` set d \<subseteq> fst ` set (snd (scrape_labels ls d))"
proof (induction ls arbitrary: d)
  case Nil
  then show ?case by simp
next
  case (Cons l ls)
  obtain r d' where s: "scrape_label l d = (r, d')"
    by (cases "scrape_label l d")
  with scrape_label_keys[of d l] have "fst ` set d \<subseteq> fst ` set d'"
    by simp
  with Cons.IH[of d'] s show ?case
    by (cases r) auto
qed

section \<open>One cycle and sequences of cycles\<close>

lemma schedule_today_eq:
  "schedule_today e w =
     schedule_times (env_today e) (env_now e) (weekday (env_today e) = 4)
       (merge_manual PRAYER_NAMES (env_manual e) (snd (scrape_try (env_page e))))
       (remove_prayer_jobs (get_jobs w) w)"
  by (simp add: schedule_today_def merged_times_Inr Let_def)

lemma schedule_today_calls:
  "\<exists>X. calls (snd (schedule_today e w)) =
          calls w @ map RemoveJob (filter is_prayer_job (map fst (jobs w))) @ X
        \<and> list_all (emitted_call (weekday (env_today e) = 4)
                      (jumuah_start_dt (env_today e) > env_now e)) X"
  using schedule_times_calls[of "env_today e" "env_now e" "weekday (env_today e) = 4"
      "merge_manual PRAYER_NAMES (env_manual e) (snd (scrape_try (env_page e)))"
      "remove_prayer_jobs (get_jobs w) w"]
  by (simp add: schedule_today_eq calls_remove_prayer_jobs get_jobs_def)

lemma cycle_calls_eq:
  "\<exists>X. cycle_calls e w = map RemoveJob (filter is_prayer_job (map fst (jobs w))) @ X
        \<and> list_all (emitted_call (weekday (env_today e) = 4)
                      (jumuah_start_dt (env_today e) > env_now e)) X"
  using schedule_today_calls[of e w] by (auto simp: cycle_calls_def)

lemma calls_schedule_today: "calls (snd (schedule_today e w)) = calls w @ cycle_calls e w"
  using schedule_today_calls[of e w] by (auto simp: cycle_calls_def)

lemma emitted_call_only_prayer_jobs:
  "emitted_call f win c \<Longrightarrow> only_prayer_jobs c"
  by (cases c) (auto simp: prayer_prefixes)

lemma emitted_call_not_remove:
  "emitted_call f win c \<Longrightarrow> \<not> is_remove c"
  by (cases c) auto

lemma schedule_today_only_prayer_jobs:
  "\<exists>Y. calls (snd (schedule_today e w)) = calls w @ Y \<and> list_all only_prayer_jobs Y"
proof -
  from schedule_today_calls[of e w] obtain X where
    X: "calls (snd (schedule_today e w)) =
          calls w @ map RemoveJob (filter is_prayer_job (map fst (jobs w))) @ X"
       "list_all (emitted_call (weekday (env_today e) = 4)
                      (jumuah_start_dt (env_today e) > env_now e)) X"
    by blast
  from X(2) have "list_all only_prayer_jobs X"
    by (auto simp: list_all_iff intro: emitted_call_only_prayer_jobs)
  moreover have "list_all only_prayer_jobs (map RemoveJob (filter is_prayer_job (map fst (jobs w))))"
    by (simp add: list_all_iff)
  ultimately have "list_all only_prayer_jobs (map RemoveJob (filter is_prayer_job (map fst (jobs w))) @ X)"
    by simp
  with X(1) show ?thesis by blast
qed

lemma run_cycles_only_prayer_jobs:
  "\<exists>Y. calls (run_cycles es w) = calls w @ Y \<and> list_all only_prayer_jobs Y"
proof (induction es arbitrary: w)
  case Nil
  then show ?case by simp
next
  case (Cons e es)
  from schedule_today_only_prayer_jobs[of e w] obtain Y1 where
    Y1: "calls (snd (schedule_today e w)) = calls w @ Y1" "list_all only_prayer_jobs Y1" by blast
  from Cons.IH[of "snd (schedule_today e w)"] obtain Y2 where
    Y2: "calls (run_cycles es (snd (schedule_today e w))) = calls (snd (schedule_today e w)) @ Y2"
        "list_all only_prayer_jobs Y2" by blast
  have "calls (run_cycles (e # es) w) = calls w @ (Y1 @ Y2)"
    by (simp add: Y1(1) Y2(1))
  moreover have "list_all only_prayer_jobs (Y1 @ Y2)"
    using Y1(2) Y2(2) by simp
  ultimately show ?case by blast
qed

lemma prayer_id_frame:
  assumes "\<not> is_prayer_job job_id"
  shows "\<forall>q\<in>fst ` set xs. (is_friday \<and> q = ''Dhuhr'')
           \<or> (job_id \<noteq> ''prayer_start_'' @ q \<and> job_id \<noteq> ''prayer_end_'' @ q)"
  using assms by (auto simp: is_prayer_job_def startswith_def)

lemma schedule_today_frame:
  assumes "\<not> is_prayer_job job_id"
  shows "map_of (jobs (snd (schedule_today e w))) job_id = map_of (jobs w) job_id"
proof -
  from assms have ne: "job_id \<noteq> ''jumuah_start''" "job_id \<noteq> ''jumuah_end''"
    by (auto simp: is_prayer_job_def startswith_def)
  show ?thesis
    unfolding schedule_today_eq schedule_times_jobs[OF ne]
      schedule_prayers_frame[OF prayer_id_frame[OF assms]]
    using assms by (simp add: map_of_jobs_removed)
qed

lemma run_cycles_frame:
  assumes "\<not> is_prayer_job job_id"
  shows "map_of (jobs (run_cycles es w)) job_id = map_of (jobs w) job_id"
  by (induction es arbitrary: w) (simp_all add: schedule_today_frame[OF assms])

lemma no_times_cycle:
  "schedule_today \<lparr>env_today = today, env_page = PageRaises,
       env_manual = get_manual_iqama_times, env_now = now\<rparr> w
     = (Inr (), remove_prayer_jobs (get_jobs w) w)"
  by (simp add: schedule_today_def merged_times_def scrape_iqama_times_def scrape_try_def
      get_manual_iqama_times_def PRAYER_NAMES_def schedule_times_def Let_def)

lemma add_not_emitted:
  assumes "\<not> emitted_call (weekday (env_today e) = 4) (jumuah_start_dt (env_today e) > env_now e)
             (AddJob job_id j)"
  shows "AddJob job_id j \<notin> set (cycle_calls e w)"
proof -
  from cycle_calls_eq[of e w] obtain X where
    X: "cycle_calls e w = map RemoveJob (filter is_prayer_job (map fst (jobs w))) @ X"
       "list_all (emitted_call (weekday (env_today e) = 4)
                      (jumuah_start_dt (env_today e) > env_now e)) X"
    by blast
  from X(2) assms have "AddJob job_id j \<notin> set X"
    unfolding list_all_iff by blast
  then show ?thesis
    unfolding X(1) by auto
qed

lemma friday_dhuhr_frame:
  assumes "job_id = ''prayer_start_Dhuhr'' \<or> job_id = ''prayer_end_Dhuhr''"
  shows "map_of (jobs (snd (schedule_today e w))) job_id =
         (if weekday (env_today e) = 4 then None
          else map_of (jobs (snd (schedule_today e w))) job_id)"
proof (cases "weekday (env_today e) = 4")
  case False
  then show ?thesis by simp
next
  case True
  from assms have ne: "job_id \<noteq> ''jumuah_start''" "job_id \<noteq> ''jumuah_end''"
    by auto
  have fr: "\<forall>q\<in>fst ` set xs. (weekday (env_today e) = 4 \<and> q = ''Dhuhr'')
           \<or> (job_id \<noteq> ''prayer_start_'' @ q \<and> job_id \<noteq> ''prayer_end_'' @ q)" for xs :: dict
    using assms True by auto
  have p: "is_prayer_job job_id"
    using assms by (auto simp: is_prayer_job_def startswith_def)
  show ?thesis
    unfolding schedule_today_eq schedule_times_jobs[OF ne] schedule_prayers_frame[OF fr]
    using True p by (simp add: map_of_jobs_removed)
qed

lemma schedule_prayers_store:
  "\<exists>X. calls (snd (schedule_prayers today now is_friday xs w)) = calls w @ X
        \<and> (\<forall>k j. map_of (jobs (snd (schedule_prayers today now is_friday xs w))) k = Some j \<longrightarrow>
               map_of (jobs w) k = Some j \<or> AddJob k j \<in> set X)"
proof (induction xs arbitrary: w rule: pair_list_induct)
  case 1
  then show ?case by simp
next
  case (2 prayer time_str xs)
  show ?case
  proof (cases rule: schedule_prayers_step[of today time_str now is_friday prayer xs w])
    case (raises err)
    then show ?thesis by simp
  next
    case (skips prayer_dt)
    then show ?thesis using "2.IH"[of w] by simp
  next
    case (adds prayer_dt)
    let ?A = "[AddJob (''prayer_start_'' @ prayer) (Job SwitchToPrayer (Date prayer_dt)),
               AddJob (''prayer_end_'' @ prayer)
                 (Job SwitchToDefault (Date (prayer_dt + minutes PRAYER_DURATION_MINUTES)))]"
    let ?w' = "add_job SwitchToDefault (Date (prayer_dt + minutes PRAYER_DURATION_MINUTES))
                 (''prayer_end_'' @ prayer)
                 (add_job SwitchToPrayer (Date prayer_dt) (''prayer_start_'' @ prayer) w)"
    let ?final = "snd (schedule_prayers today now is_friday xs ?w')"
    from "2.IH"[of ?w'] obtain X where
      X: "calls ?final = calls ?w' @ X"
         "\<forall>k j. map_of (jobs ?final) k = Some j \<longrightarrow>
               map_of (jobs ?w') k = Some j \<or> AddJob k j \<in> set X"
      by blast
    have c: "calls ?w' = calls w @ ?A"
      by (simp add: calls_add_job)
    have s: "map_of (jobs ?w') k = Some j \<longrightarrow> map_of (jobs w) k = Some j \<or> AddJob k j \<in> set ?A"
      for k j
      by (simp only: map_of_add_job) (auto split: if_splits)
    have "calls ?final = calls w @ (?A @ X)"
      unfolding X(1) c by simp
    moreover have "\<forall>k j. map_of (jobs ?final) k = Some j \<longrightarrow>
               map_of (jobs w) k = Some j \<or> AddJob k j \<in> set (?A @ X)"
      using X(2) s by (metis Un_iff set_append)
    ultimately show ?thesis
      unfolding adds(4) by blast
  qed
qed

lemma schedule_times_store:
  "\<exists>X. calls (snd (schedule_times today now is_friday xs w)) = calls w @ X
        \<and> (\<forall>k j. map_of (jobs (snd (schedule_times today now is_friday xs w))) k = Some j \<longrightarrow>
               map_of (jobs w) k = Some j \<or> AddJob k j \<in> set X)"
proof -
  let ?p = "snd (schedule_prayers today now is_friday xs w)"
  from schedule_prayers_store[of today now is_friday xs w] obtain X where
    X: "calls ?p = calls w @ X"
       "\<forall>k j. map_of (jobs ?p) k = Some j \<longrightarrow> map_of (jobs w) k = Some j \<or> AddJob k j \<in> set X"
    by blast
  show ?thesis
  proof (cases rule: schedule_times_cases[of xs today now is_friday w])
    case empty
    then show ?thesis by simp
  next
    case (raises err)
    with X show ?thesis by auto
  next
    case window
    let ?J = "[AddJob ''jumuah_start'' (Job SwitchToPrayer (Date (jumuah_start_dt today))),
               AddJob ''jumuah_end'' (Job SwitchToDefault (Date (jumuah_end_dt today))),
               SwitchScene SCENE_DEFAULT]"
    let ?final = "switch_to_default
            (add_job SwitchToDefault (Date (jumuah_end_dt today)) ''jumuah_end''
               (add_job SwitchToPrayer (Date (jumuah_start_dt today)) ''jumuah_start'' ?p))"
    have c: "calls ?final = calls w @ (X @ ?J)"
      by (simp add: calls_switch_to_default calls_add_job X(1))
    have s: "map_of (jobs ?final) k = Some j \<longrightarrow> map_of (jobs ?p) k = Some j \<or> AddJob k j \<in> set ?J"
      for k j
      by (simp only: jobs_switch_to_default map_of_add_job) (auto split: if_splits)
    have "\<forall>k j. map_of (jobs ?final) k = Some j \<longrightarrow>
               map_of (jobs w) k = Some j \<or> AddJob k j \<in> set (X @ ?J)"
      using X(2) s by (metis Un_iff set_append)
    with c show ?thesis
      unfolding window(5) by (metis snd_conv)
  next
    case plain
    have c: "calls (switch_to_default ?p) = calls w @ (X @ [SwitchScene SCENE_DEFAULT])"
      by (simp add: calls_switch_to_default X(1))
    have "\<forall>k j. map_of (jobs (switch_to_default ?p)) k = Some j \<longrightarrow>
               map_of (jobs w) k = Some j \<or> AddJob k j \<in> set (X @ [SwitchScene SCENE_DEFAULT])"
      using X(2) by (simp add: jobs_switch_to_default)
    with c show ?thesis
      unfolding plain(4) by (metis snd_conv)
  qed
qed

lemma schedule_today_store:
  assumes "is_prayer_job job_id" "map_of (jobs (snd (schedule_today e w))) job_id = Some j"
  shows "AddJob job_id j \<in> set (cycle_calls e w)"
proof -
  let ?w1 = "remove_prayer_jobs (get_jobs w) w"
  let ?xs = "merge_manual PRAYER_NAMES (env_manual e) (snd (scrape_try (env_page e)))"
  let ?final = "snd (schedule_times (env_today e) (env_now e) (weekday (env_today e) = 4) ?xs ?w1)"
  from schedule_times_store[of "env_today e" "env_now e" "weekday (env_today e) = 4" ?xs ?w1]
  obtain X where
    X: "calls ?final = calls ?w1 @ X"
       "\<forall>k j. map_of (jobs ?final) k = Some j \<longrightarrow> map_of (jobs ?w1) k = Some j \<or> AddJob k j \<in> set X"
    by blast
  from assms(2) have "map_of (jobs ?final) job_id = Some j"
    by (simp add: schedule_today_eq)
  with X(2) have "map_of (jobs ?w1) job_id = Some j \<or> AddJob job_id j \<in> set X"
    by blast
  moreover have "map_of (jobs ?w1) job_id = None"
    using assms(1) by (simp add: map_of_jobs_removed)
  ultimately have "AddJob job_id j \<in> set X"
    by simp
  moreover have "calls (snd (schedule_today e w))
      = calls w @ map RemoveJob (filter is_prayer_job (map fst (get_jobs w))) @ X"
    unfolding schedule_today_eq X(1) calls_remove_prayer_jobs by simp
  then have "cycle_calls e w = map RemoveJob (filter is_prayer_job (map fst (get_jobs w))) @ X"
    by (simp add: cycle_calls_def)
  ultimately show ?thesis by simp
qed

section \<open>Evaluations on concrete inputs\<close>

lemma normalised_examples:
  "normalised ''2 : 30 PM (iqama)'' = ''2:30PM(iqama)''" "normalised ''2:30 PM'' = ''2:30PM''"
  "re_match (normalised ''noon'') = None"
  by code_simp+

lemma matches_prefix_examples:
  "matches_prefix ''2:30PM(iqama)'' ''2'' ''30'' ''PM''"
proof -
  have "''2:30PM(iqama)'' = ''2'' @ '':'' @ ''30'' @ [] @ ''PM'' @ ''(iqama)''" by simp
  moreover have "list_all is_digit ''2''" "list_all is_digit ''30''"
    by (simp_all add: is_digit_def)
  ultimately show ?thesis
    unfolding matches_prefix_def by (intro exI[of _ "[]"] exI[of _ "''(iqama)''"]) simp
qed

lemma matches_prefix_plain:
  "matches_prefix ''2:30PM'' ''2'' ''30'' ''PM''"
proof -
  have "''2:30PM'' = ''2'' @ '':'' @ ''30'' @ [] @ ''PM'' @ []" by simp
  moreover have "list_all is_digit ''2''" "list_all is_digit ''30''"
    by (simp_all add: is_digit_def)
  ultimately show ?thesis
    unfolding matches_prefix_def by (intro exI[of _ "[]"]) simp
qed

lemma digits_examples:
  "int_of_digits ''2'' = 2" "int_of_digits ''30'' = 30" "fmt_02d 14 = ''14''" "fmt_02d 30 = ''30''"
  by code_simp+

lemma parsed_half_past_one: "parse_hm ''13:30'' = Inr (13, 30)"
  by code_simp

lemma parsed_examples:
  "parse_hm ''06:00'' = Inr (6, 0)" "parse_hm ''13:00'' = Inr (13, 0)"
  "parse_hm ''16:45'' = Inr (16, 45)"
  by code_simp+

lemma unparsed_soon: "convert_to_24h (strip ''soon'') = None"
  by code_simp

lemma scraped_dhuhr:
  "scrape_iqama_times (Page [Label ''Dhuhr'' (IqamaLabel (TimeElement ''1:30 PM''))] True)
     = Inr [(''Dhuhr'', ''13:30'')]"
  by code_simp

lemma scraped_asr:
  "scrape_iqama_times (Page [Label ''Asr'' (IqamaLabel (TimeElement ''4:45 PM''))] True)
     = Inr [(''Asr'', ''16:45'')]"
  by code_simp

lemma scraped_fajr_dhuhr:
  "scrape_iqama_times (Page [Label ''Fajr'' (IqamaLabel (TimeElement ''6:00 AM'')),
                              Label ''Dhuhr'' (IqamaLabel (TimeElement ''1:00 PM''))] True)
     = Inr [(''Fajr'', ''06:00''), (''Dhuhr'', ''13:00'')]"
  by code_simp

lemma scraped_fajr:
  "scrape_labels [Label ''Fajr'' (IqamaLabel (TimeElement ''6:15 AM''))] []
     = (Inr (), [(''Fajr'', ''06:15'')])"
  by code_simp

lemma scraped_isha:
  "scrape_labels [Label ''Fajr'' (IqamaLabel (TimeElement ''6:15 AM'')),
                  Label ''Isha'' (IqamaLabel (TimeElement ''8:00 PM''))] []
     = (Inr (), [(''Fajr'', ''06:15''), (''Isha'', ''20:00'')])"
  by code_simp

lemma card_raises: "fst (scrape_label (Label ''Asr'' CardRaises) [(''Fajr'', ''06:15'')]) = Inl BrowserError"
  by code_simp

section \<open>The claims\<close>

text \<open>
  Claim C1 fails on the code. When the scraper returns nothing and the manual table is
  empty, as the repository has it, \<^verbatim>\<open>schedule_today\<close> returns by line 216: on any day, at
  any time and from any world, the calls of the cycle are the removals of lines 200 to 202
  and nothing else, so the actuator is not invoked. With a restore job pending
  (\<^verbatim>\<open>prayer_end_Dhuhr\<close>), the cycle removes it and makes no other call.
\<close>

theorem schedule_today_early_return:
  "schedule_today \<lparr>env_today = today, env_page = PageRaises,
       env_manual = get_manual_iqama_times, env_now = now\<rparr> w
     = (Inr (), remove_prayer_jobs (get_jobs w) w)
   \<and> cycle_calls \<lparr>env_today = today, env_page = PageRaises,
       env_manual = get_manual_iqama_times, env_now = now\<rparr> w
     = map RemoveJob (filter is_prayer_job (map fst (jobs w)))
   \<and> SwitchScene SCENE_DEFAULT \<notin> set (cycle_calls \<lparr>env_today = today, env_page = PageRaises,
       env_manual = get_manual_iqama_times, env_now = now\<rparr> w)
   \<and> cycle_calls \<lparr>env_today = today, env_page = PageRaises,
       env_manual = get_manual_iqama_times, env_now = now\<rparr>
       (add_job SwitchToDefault (Date back_dt) ''prayer_end_Dhuhr''
          (add_refresh_jobs initial_world))
     = [RemoveJob ''prayer_end_Dhuhr'']"
proof -
  have c: "cycle_calls \<lparr>env_today = today, env_page = PageRaises,
       env_manual = get_manual_iqama_times, env_now = now\<rparr> w
     = map RemoveJob (filter is_prayer_job (map fst (jobs w)))" for w
    by (simp add: cycle_calls_def no_times_cycle calls_remove_prayer_jobs get_jobs_def)
  have d: "cycle_calls \<lparr>env_today = today, env_page = PageRaises,
       env_manual = get_manual_iqama_times, env_now = now\<rparr>
       (add_job SwitchToDefault (Date back_dt) ''prayer_end_Dhuhr''
          (add_refresh_jobs initial_world))
     = [RemoveJob ''prayer_end_Dhuhr'']"
    by (simp add: c add_job_def add_refresh_jobs_def initial_world_def is_prayer_job_def
        startswith_def)
  from c[of w] d no_times_cycle[of today now w] show ?thesis
    by auto
qed

text \<open>
  Claim C2 fails on the code. On Friday 2026-11-06 (ordinal 739926) at 05:00, before the
  window starts at 13:25, with nothing scraped and the manual table empty, the cycle
  returns by line 216: no job \<^verbatim>\<open>jumuah_start\<close> or \<^verbatim>\<open>jumuah_end\<close> is added, and the store
  holds none afterwards, whatever world the cycle started from.
\<close>

theorem friday_without_times_no_window:
  "weekday 739926 = 4
   \<and> jumuah_start_dt 739926 > minutes ((739926 * 24 + 5) * 60)
   \<and> map_of (jobs (snd (schedule_today \<lparr>env_today = 739926, env_page = PageRaises,
        env_manual = get_manual_iqama_times, env_now = minutes ((739926 * 24 + 5) * 60)\<rparr> w)))
        ''jumuah_start'' = None
   \<and> map_of (jobs (snd (schedule_today \<lparr>env_today = 739926, env_page = PageRaises,
        env_manual = get_manual_iqama_times, env_now = minutes ((739926 * 24 + 5) * 60)\<rparr> w)))
        ''jumuah_end'' = None
   \<and> AddJob ''jumuah_start'' j \<notin> set (cycle_calls \<lparr>env_today = 739926, env_page = PageRaises,
        env_manual = get_manual_iqama_times, env_now = minutes ((739926 * 24 + 5) * 60)\<rparr> w)
   \<and> AddJob ''jumuah_end'' j \<notin> set (cycle_calls \<lparr>env_today = 739926, env_page = PageRaises,
        env_manual = get_manual_iqama_times, env_now = minutes ((739926 * 24 + 5) * 60)\<rparr> w)"
proof -
  have "weekday 739926 = 4" by (simp add: weekday_def)
  moreover have "jumuah_start_dt 739926 > minutes ((739926 * 24 + 5) * 60)"
    by (simp add: jumuah_start_dt_def minutes_def)
  moreover have "cycle_calls \<lparr>env_today = 739926, env_page = PageRaises,
        env_manual = get_manual_iqama_times, env_now = minutes ((739926 * 24 + 5) * 60)\<rparr> w
     = map RemoveJob (filter is_prayer_job (map fst (jobs w)))"
    by (simp add: cycle_calls_def no_times_cycle calls_remove_prayer_jobs get_jobs_def)
  ultimately show ?thesis
    by (auto simp: no_times_cycle map_of_jobs_removed prayer_prefixes)
qed

text \<open>
  Claim C3. A cycle first removes every job of the store whose id starts with
  \<^verbatim>\<open>prayer_\<close> or \<^verbatim>\<open>jumuah_\<close>, and removes nothing after that: its calls are these
  removals followed by calls none of which is a removal, and the store after line 202
  holds no such job. Every job with such an id that the store holds after the cycle was
  added by this cycle, so no job of an earlier cycle stays pending. In any sequence of
  cycles, from any world, every job removed or added has such an id, so the two recurring
  triggers that \<^verbatim>\<open>main\<close> added stay in the store as they were.
\<close>

theorem generation_replacement:
  "(\<exists>X. cycle_calls e w = map RemoveJob (filter is_prayer_job (map fst (jobs w))) @ X
        \<and> list_all (\<lambda>c. \<not> is_remove c) X)
   \<and> list_all (\<lambda>(job_id, j). \<not> is_prayer_job job_id) (jobs (remove_prayer_jobs (get_jobs w) w))
   \<and> (\<exists>Y. calls (run_cycles es w) = calls w @ Y \<and> list_all only_prayer_jobs Y)
   \<and> map_of (jobs (run_cycles es (add_refresh_jobs w))) ''daily_refresh''
       = Some (Job ScheduleToday (Cron 0 5))
   \<and> map_of (jobs (run_cycles es (add_refresh_jobs w))) ''midday_refresh''
       = Some (Job ScheduleToday (Cron 12 0))
   \<and> (is_prayer_job job_id \<and> map_of (jobs (snd (schedule_today e w))) job_id = Some j \<longrightarrow>
        AddJob job_id j \<in> set (cycle_calls e w))"
proof -
  from cycle_calls_eq[of e w] obtain X where
    X: "cycle_calls e w = map RemoveJob (filter is_prayer_job (map fst (jobs w))) @ X"
       "list_all (emitted_call (weekday (env_today e) = 4)
                      (jumuah_start_dt (env_today e) > env_now e)) X"
    by blast
  from X(2) have "list_all (\<lambda>c. \<not> is_remove c) X"
    by (auto simp: list_all_iff dest: emitted_call_not_remove)
  with X(1) have a: "\<exists>X. cycle_calls e w = map RemoveJob (filter is_prayer_job (map fst (jobs w))) @ X
        \<and> list_all (\<lambda>c. \<not> is_remove c) X"
    by blast
  have b: "list_all (\<lambda>(job_id, j). \<not> is_prayer_job job_id) (jobs (remove_prayer_jobs (get_jobs w) w))"
    by (auto simp: jobs_remove_prayer_jobs get_jobs_def list_all_iff rev_image_eqI)
  have c: "\<exists>Y. calls (run_cycles es w) = calls w @ Y \<and> list_all only_prayer_jobs Y"
    by (rule run_cycles_only_prayer_jobs)
  have d: "map_of (jobs (run_cycles es (add_refresh_jobs w))) ''daily_refresh''
       = Some (Job ScheduleToday (Cron 0 5))"
    by (simp add: run_cycles_frame[OF refresh_ids(1)] add_refresh_jobs_def map_of_add_job)
  have e: "map_of (jobs (run_cycles es (add_refresh_jobs w))) ''midday_refresh''
       = Some (Job ScheduleToday (Cron 12 0))"
    by (simp add: run_cycles_frame[OF refresh_ids(2)] add_refresh_jobs_def map_of_add_job)
  have f: "is_prayer_job job_id \<and> map_of (jobs (snd (schedule_today e w))) job_id = Some j \<longrightarrow>
        AddJob job_id j \<in> set (cycle_calls e w)"
    using schedule_today_store by blast
  from a b c d e f show ?thesis by blast
qed

theorem generation_replacement_witness:
  "is_prayer_job ''prayer_end_Fajr''
   \<and> map_of (jobs (add_job SwitchToDefault (Date 0) ''prayer_end_Fajr''
                     (add_refresh_jobs initial_world))) ''prayer_end_Fajr''
       = Some (Job SwitchToDefault (Date 0))
   \<and> schedule_today \<lparr>env_today = 739924,
        env_page = Page [Label ''Dhuhr'' (IqamaLabel (TimeElement ''1:30 PM''))] True,
        env_manual = get_manual_iqama_times,
        env_now = minutes ((739924 * 24 + 12) * 60)\<rparr>
        (add_job SwitchToDefault (Date 0) ''prayer_end_Fajr'' (add_refresh_jobs initial_world))
       = (Inr (),
          \<lparr>jobs = [(''daily_refresh'', Job ScheduleToday (Cron 0 5)),
                   (''midday_refresh'', Job ScheduleToday (Cron 12 0)),
                   (''prayer_start_Dhuhr'',
                    Job SwitchToPrayer (Date (minutes ((739924 * 24 + 13) * 60 + 30)))),
                   (''prayer_end_Dhuhr'',
                    Job SwitchToDefault (Date (minutes ((739924 * 24 + 13) * 60 + 40))))],
            calls = [AddJob ''daily_refresh'' (Job ScheduleToday (Cron 0 5)),
                     AddJob ''midday_refresh'' (Job ScheduleToday (Cron 12 0)),
                     AddJob ''prayer_end_Fajr'' (Job SwitchToDefault (Date 0)),
                     RemoveJob ''prayer_end_Fajr'',
                     AddJob ''prayer_start_Dhuhr''
                       (Job SwitchToPrayer (Date (minutes ((739924 * 24 + 13) * 60 + 30)))),
                     AddJob ''prayer_end_Dhuhr''
                       (Job SwitchToDefault (Date (minutes ((739924 * 24 + 13) * 60 + 40)))),
                     SwitchScene SCENE_DEFAULT]\<rparr>)
   \<and> is_prayer_job ''prayer_start_Dhuhr''
   \<and> AddJob ''prayer_start_Dhuhr''
         (Job SwitchToPrayer (Date (minutes ((739924 * 24 + 13) * 60 + 30))))
       \<in> set (cycle_calls \<lparr>env_today = 739924,
        env_page = Page [Label ''Dhuhr'' (IqamaLabel (TimeElement ''1:30 PM''))] True,
        env_manual = get_manual_iqama_times,
        env_now = minutes ((739924 * 24 + 12) * 60)\<rparr>
        (add_job SwitchToDefault (Date 0) ''prayer_end_Fajr'' (add_refresh_jobs initial_world)))"
proof -
  let ?e = "\<lparr>env_today = 739924,
        env_page = Page [Label ''Dhuhr'' (IqamaLabel (TimeElement ''1:30 PM''))] True,
        env_manual = get_manual_iqama_times,
        env_now = minutes ((739924 * 24 + 12) * 60)\<rparr>"
  let ?w = "add_job SwitchToDefault (Date 0) ''prayer_end_Fajr'' (add_refresh_jobs initial_world)"
  have ids: "is_prayer_job ''prayer_end_Fajr''" "is_prayer_job ''prayer_start_Dhuhr''"
    by (simp_all add: is_prayer_job_def startswith_def)
  have old: "map_of (jobs ?w) ''prayer_end_Fajr'' = Some (Job SwitchToDefault (Date 0))"
    by (simp add: map_of_add_job)
  have rt: "read_time 739924 ''13:30'' = Inr (minutes ((739924 * 24 + 13) * 60 + 30))"
    by (simp add: read_time_def combine_def parsed_half_past_one)
  have run: "schedule_today ?e ?w
       = (Inr (),
          \<lparr>jobs = [(''daily_refresh'', Job ScheduleToday (Cron 0 5)),
                   (''midday_refresh'', Job ScheduleToday (Cron 12 0)),
                   (''prayer_start_Dhuhr'',
                    Job SwitchToPrayer (Date (minutes ((739924 * 24 + 13) * 60 + 30)))),
                   (''prayer_end_Dhuhr'',
                    Job SwitchToDefault (Date (minutes ((739924 * 24 + 13) * 60 + 40))))],
            calls = [AddJob ''daily_refresh'' (Job ScheduleToday (Cron 0 5)),
                     AddJob ''midday_refresh'' (Job ScheduleToday (Cron 12 0)),
                     AddJob ''prayer_end_Fajr'' (Job SwitchToDefault (Date 0)),
                     RemoveJob ''prayer_end_Fajr'',
                     AddJob ''prayer_start_Dhuhr''
                       (Job SwitchToPrayer (Date (minutes ((739924 * 24 + 13) * 60 + 30)))),
                     AddJob ''prayer_end_Dhuhr''
                       (Job SwitchToDefault (Date (minutes ((739924 * 24 + 13) * 60 + 40)))),
                     SwitchScene SCENE_DEFAULT]\<rparr>)"
    by (simp add: schedule_today_def merged_times_def scraped_dhuhr
        get_manual_iqama_times_def PRAYER_NAMES_def schedule_times_def rt weekday_def
        get_jobs_def add_job_def remove_job_def add_refresh_jobs_def
        initial_world_def is_prayer_job_def startswith_def switch_to_default_def
        switch_scene_def PRAYER_DURATION_MINUTES_def minutes_def Let_def)
  have stored: "map_of (jobs (snd (schedule_today ?e ?w))) ''prayer_start_Dhuhr''
      = Some (Job SwitchToPrayer (Date (minutes ((739924 * 24 + 13) * 60 + 30))))"
    unfolding run by simp
  from generation_replacement[of ?e ?w "[]" "''prayer_start_Dhuhr''"
         "Job SwitchToPrayer (Date (minutes ((739924 * 24 + 13) * 60 + 30)))"]
       ids stored
  have "AddJob ''prayer_start_Dhuhr''
         (Job SwitchToPrayer (Date (minutes ((739924 * 24 + 13) * 60 + 30))))
       \<in> set (cycle_calls ?e ?w)"
    by blast
  with ids old run show ?thesis
    by blast
qed

text \<open>
  Claim C4, as stated: the four examples, and no value for every malformed text. The
  second part fails: a text that is not of the form \<^verbatim>\<open>H:MM AM|PM\<close> can yield a value.
\<close>

theorem convert_to_24h_malformed_counterexample:
  "\<not> (\<forall>s. \<not> spec_time_text s \<longrightarrow> convert_to_24h s = None)"
proof
  assume "\<forall>s. \<not> spec_time_text s \<longrightarrow> convert_to_24h s = None"
  then have "\<not> spec_time_text ''12:00 AM tomorrow'' \<longrightarrow> convert_to_24h ''12:00 AM tomorrow'' = None"
    by blast
  moreover have "\<not> spec_time_text ''12:00 AM tomorrow''"
    by code_simp
  moreover have "convert_to_24h ''12:00 AM tomorrow'' = Some ''00:00''"
    by code_simp
  ultimately show False by simp
qed

text \<open>
  Claim C4, amended. The four examples hold. The parser is total: every text yields
  either no value or a time \<^verbatim>\<open>HH:MM\<close> with hour 0 to 23 and minute 0 to 59. What it
  yields is decided by the beginning of the text, after spaces and newlines are deleted
  and the ends stripped. When that text does not begin with one or two digits, a colon,
  two digits, optional whitespace and one of \<^verbatim>\<open>AM\<close>, \<^verbatim>\<open>PM\<close>, \<^verbatim>\<open>am\<close>, \<^verbatim>\<open>pm\<close>, there is
  no value. When it does, with hour digits \<open>g1\<close>, minute digits \<open>g2\<close> and marker \<open>g3\<close>,
  the hour is the number \<open>g1\<close> plus 12 under \<^verbatim>\<open>PM\<close> or \<^verbatim>\<open>pm\<close> unless it is 12, and 0 for 12
  under \<^verbatim>\<open>AM\<close> or \<^verbatim>\<open>am\<close>; the value is that hour and the minute \<open>g2\<close>, two digits each,
  when the hour is at most 23 and the minute at most 59, and no value otherwise. What
  follows the marker is not examined: two texts that begin with the same hour, minute and
  marker yield the same.
\<close>

theorem convert_to_24h_parses:
  "convert_to_24h ''12:00 AM'' = Some ''00:00''
   \<and> convert_to_24h ''12:00 PM'' = Some ''12:00''
   \<and> convert_to_24h ''1:05 pm'' = Some ''13:05''
   \<and> convert_to_24h ''13:05 PM'' = None
   \<and> (convert_to_24h s = None
      \<or> (\<exists>g1 g2 g3 h m. matches_prefix (normalised s) g1 g2 g3
            \<and> 0 \<le> h \<and> h \<le> 23 \<and> 0 \<le> m \<and> m \<le> 59
            \<and> convert_to_24h s = Some (fmt_02d h @ '':'' @ fmt_02d m)))
   \<and> ((\<forall>g1 g2 g3. \<not> matches_prefix (normalised s) g1 g2 g3) \<longrightarrow> convert_to_24h s = None)
   \<and> (matches_prefix (normalised s) g1 g2 g3 \<longrightarrow>
        convert_to_24h s =
          (let h12 = int_of_digits g1; m = int_of_digits g2;
               h = (if g3 = ''PM'' \<or> g3 = ''pm'' then (if h12 = 12 then 12 else h12 + 12)
                    else (if h12 = 12 then 0 else h12))
           in if 0 \<le> h \<and> h \<le> 23 \<and> 0 \<le> m \<and> m \<le> 59
              then Some (fmt_02d h @ '':'' @ fmt_02d m) else None))
   \<and> (matches_prefix (normalised s) g1 g2 g3 \<and> matches_prefix (normalised s') g1 g2 g3 \<longrightarrow>
        convert_to_24h s' = convert_to_24h s)"
proof -
  have "convert_to_24h ''12:00 AM'' = Some ''00:00''" by code_simp
  moreover have "convert_to_24h ''12:00 PM'' = Some ''12:00''" by code_simp
  moreover have "convert_to_24h ''1:05 pm'' = Some ''13:05''" by code_simp
  moreover have "convert_to_24h ''13:05 PM'' = None" by code_simp
  moreover note convert_to_24h_cases[of s]
  moreover have "(\<forall>g1 g2 g3. \<not> matches_prefix (normalised s) g1 g2 g3) \<longrightarrow> convert_to_24h s = None"
    using convert_to_24h_unmatched by blast
  moreover have "matches_prefix (normalised s) g1 g2 g3 \<longrightarrow>
        convert_to_24h s =
          (let h12 = int_of_digits g1; m = int_of_digits g2;
               h = (if g3 = ''PM'' \<or> g3 = ''pm'' then (if h12 = 12 then 12 else h12 + 12)
                    else (if h12 = 12 then 0 else h12))
           in if 0 \<le> h \<and> h \<le> 23 \<and> 0 \<le> m \<and> m \<le> 59
              then Some (fmt_02d h @ '':'' @ fmt_02d m) else None)"
    using convert_to_24h_matched by blast
  moreover have "matches_prefix (normalised s) g1 g2 g3 \<and> matches_prefix (normalised s') g1 g2 g3 \<longrightarrow>
        convert_to_24h s' = convert_to_24h s"
    using convert_to_24h_matched[of s g1 g2 g3] convert_to_24h_matched[of s' g1 g2 g3] by simp
  ultimately show ?thesis by blast
qed

theorem convert_to_24h_parses_witness:
  "matches_prefix (normalised ''2 : 30 PM (iqama)'') ''2'' ''30'' ''PM''
   \<and> matches_prefix (normalised ''2:30 PM'') ''2'' ''30'' ''PM''
   \<and> convert_to_24h ''2 : 30 PM (iqama)'' = Some ''14:30''
   \<and> convert_to_24h ''2:30 PM'' = Some ''14:30''
   \<and> (\<forall>g1 g2 g3. \<not> matches_prefix (normalised ''noon'') g1 g2 g3)
   \<and> convert_to_24h ''noon'' = None"
proof -
  have a: "matches_prefix (normalised ''2 : 30 PM (iqama)'') ''2'' ''30'' ''PM''"
    by (simp only: normalised_examples matches_prefix_examples)
  have b: "matches_prefix (normalised ''2:30 PM'') ''2'' ''30'' ''PM''"
    by (simp only: normalised_examples matches_prefix_plain)
  have c: "\<forall>g1 g2 g3. \<not> matches_prefix (normalised ''noon'') g1 g2 g3"
    using re_match_complete[of "normalised ''noon''"] by (auto simp: normalised_examples)
  from convert_to_24h_parses[of "''2 : 30 PM (iqama)''" "''2''" "''30''" "''PM''" "''2:30 PM''"]
       convert_to_24h_parses[of "''noon''" "''2''" "''30''" "''PM''" "''noon''"] a b c
  show ?thesis
    by (simp add: digits_examples)
qed

text \<open>
  Claim C5. On a Friday, whatever the browser shows and whatever the manual table holds,
  the cycle adds no job \<^verbatim>\<open>prayer_start_Dhuhr\<close> or \<^verbatim>\<open>prayer_end_Dhuhr\<close>, and the store
  holds none after the cycle, also when the world before it held one.
\<close>

theorem friday_dhuhr_not_scheduled:
  assumes "weekday (env_today e) = 4"
  shows "map_of (jobs (snd (schedule_today e w))) ''prayer_start_Dhuhr'' = None
       \<and> map_of (jobs (snd (schedule_today e w))) ''prayer_end_Dhuhr'' = None
       \<and> AddJob ''prayer_start_Dhuhr'' j \<notin> set (cycle_calls e w)
       \<and> AddJob ''prayer_end_Dhuhr'' j \<notin> set (cycle_calls e w)"
proof -
  have "map_of (jobs (snd (schedule_today e w))) ''prayer_start_Dhuhr'' = None"
    using friday_dhuhr_frame[of "''prayer_start_Dhuhr''" e w] assms by simp
  moreover have "map_of (jobs (snd (schedule_today e w))) ''prayer_end_Dhuhr'' = None"
    using friday_dhuhr_frame[of "''prayer_end_Dhuhr''" e w] assms by simp
  moreover have "AddJob ''prayer_start_Dhuhr'' j \<notin> set (cycle_calls e w)"
    by (rule add_not_emitted) (simp add: assms)
  moreover have "AddJob ''prayer_end_Dhuhr'' j \<notin> set (cycle_calls e w)"
    by (rule add_not_emitted) (simp add: assms)
  ultimately show ?thesis by blast
qed

theorem friday_dhuhr_not_scheduled_witness:
  "weekday (env_today \<lparr>env_today = 739926,
      env_page = Page [Label ''Dhuhr'' (IqamaLabel (TimeElement ''1:30 PM''))] True,
      env_manual = [''Dhuhr'' \<mapsto> ''13:00'', ''Asr'' \<mapsto> ''16:45''],
      env_now = minutes ((739926 * 24 + 5) * 60)\<rparr>) = 4
   \<and> merged_times \<lparr>env_today = 739926,
      env_page = Page [Label ''Dhuhr'' (IqamaLabel (TimeElement ''1:30 PM''))] True,
      env_manual = [''Dhuhr'' \<mapsto> ''13:00'', ''Asr'' \<mapsto> ''16:45''],
      env_now = minutes ((739926 * 24 + 5) * 60)\<rparr>
       = Inr [(''Dhuhr'', ''13:30''), (''Asr'', ''16:45'')]
   \<and> map_of (jobs (snd (schedule_today \<lparr>env_today = 739926,
      env_page = Page [Label ''Dhuhr'' (IqamaLabel (TimeElement ''1:30 PM''))] True,
      env_manual = [''Dhuhr'' \<mapsto> ''13:00'', ''Asr'' \<mapsto> ''16:45''],
      env_now = minutes ((739926 * 24 + 5) * 60)\<rparr>
        (add_job SwitchToPrayer (Date 0) ''prayer_start_Dhuhr'' initial_world))))
        ''prayer_start_Dhuhr'' = None
   \<and> map_of (jobs (snd (schedule_today \<lparr>env_today = 739926,
      env_page = Page [Label ''Dhuhr'' (IqamaLabel (TimeElement ''1:30 PM''))] True,
      env_manual = [''Dhuhr'' \<mapsto> ''13:00'', ''Asr'' \<mapsto> ''16:45''],
      env_now = minutes ((739926 * 24 + 5) * 60)\<rparr>
        (add_job SwitchToPrayer (Date 0) ''prayer_start_Dhuhr'' initial_world))))
        ''prayer_end_Dhuhr'' = None"
proof -
  let ?e = "\<lparr>env_today = 739926,
      env_page = Page [Label ''Dhuhr'' (IqamaLabel (TimeElement ''1:30 PM''))] True,
      env_manual = [''Dhuhr'' \<mapsto> ''13:00'', ''Asr'' \<mapsto> ''16:45''],
      env_now = minutes ((739926 * 24 + 5) * 60)\<rparr>"
  let ?w = "add_job SwitchToPrayer (Date 0) ''prayer_start_Dhuhr'' initial_world"
  have friday: "weekday (env_today ?e) = 4"
    by (simp add: weekday_def)
  have merged: "merged_times ?e = Inr [(''Dhuhr'', ''13:30''), (''Asr'', ''16:45'')]"
    by (simp add: merged_times_def scraped_dhuhr PRAYER_NAMES_def)
  from friday_dhuhr_not_scheduled[OF friday, of ?w] friday merged show ?thesis
    by simp
qed

text \<open>
  Claim C6. When the manual table holds readable times, the cycle returns, and for every
  event of the merged dictionary other than Dhuhr on a Friday, with its time of day put
  on today's date: if that time is strictly after now, the store holds after the cycle
  the job \<^verbatim>\<open>prayer_start_\<close> for the event at that time and the job \<^verbatim>\<open>prayer_end_\<close> for
  it ten minutes later; otherwise it holds neither.
\<close>

theorem candidate_event_actions:
  assumes "manual_readable (env_manual e)"
    and "merged_times e = Inr iqama_times"
    and "(prayer, time_str) \<in> set iqama_times"
    and "\<not> (weekday (env_today e) = 4 \<and> prayer = ''Dhuhr'')"
  shows "fst (schedule_today e w) = Inr ()
       \<and> (\<exists>prayer_dt. read_time (env_today e) time_str = Inr prayer_dt
            \<and> map_of (jobs (snd (schedule_today e w))) (''prayer_start_'' @ prayer)
                = (if prayer_dt > env_now e then Some (Job SwitchToPrayer (Date prayer_dt))
                   else None)
            \<and> map_of (jobs (snd (schedule_today e w))) (''prayer_end_'' @ prayer)
                = (if prayer_dt > env_now e
                   then Some (Job SwitchToDefault
                                (Date (prayer_dt + minutes PRAYER_DURATION_MINUTES)))
                   else None))"
proof -
  let ?today = "env_today e" and ?now = "env_now e" and ?fri = "weekday (env_today e) = 4"
  let ?w1 = "remove_prayer_jobs (get_jobs w) w"
  from assms(2) have m: "iqama_times =
      merge_manual PRAYER_NAMES (env_manual e) (snd (scrape_try (env_page e)))"
    by (simp add: merged_times_Inr)
  from merged_times_ok[OF assms(1,2)] have d: "distinct (map fst iqama_times)"
    and r: "list_all (\<lambda>(q, t). readable t) iqama_times"
    by (simp_all add: dict_ok_def)
  from r assms(3) have "readable time_str"
    by (auto simp: list_all_iff)
  then obtain prayer_dt where dt: "read_time ?today time_str = Inr prayer_dt"
    using readable_read_time[of time_str ?today] by blast
  have eq: "schedule_today e w = schedule_times ?today ?now ?fri iqama_times ?w1"
    by (simp add: schedule_today_eq m)
  have ret: "fst (schedule_today e w) = Inr ()"
    unfolding eq by (rule schedule_times_returns[OF r])
  have ne: "''prayer_start_'' @ prayer \<noteq> ''jumuah_start''" "''prayer_start_'' @ prayer \<noteq> ''jumuah_end''"
    "''prayer_end_'' @ prayer \<noteq> ''jumuah_start''" "''prayer_end_'' @ prayer \<noteq> ''jumuah_end''"
    by simp_all
  have p: "is_prayer_job (''prayer_start_'' @ prayer)" "is_prayer_job (''prayer_end_'' @ prayer)"
    by (simp_all add: prayer_prefixes startswith_def)
  from schedule_prayers_effect[OF d assms(3) r assms(4) dt, of ?now ?w1]
  have "map_of (jobs (snd (schedule_today e w))) (''prayer_start_'' @ prayer)
                = (if prayer_dt > ?now then Some (Job SwitchToPrayer (Date prayer_dt))
                   else None)
      \<and> map_of (jobs (snd (schedule_today e w))) (''prayer_end_'' @ prayer)
                = (if prayer_dt > ?now
                   then Some (Job SwitchToDefault
                                (Date (prayer_dt + minutes PRAYER_DURATION_MINUTES)))
                   else None)"
    unfolding eq schedule_times_jobs[OF ne(1,2)] schedule_times_jobs[OF ne(3,4)]
    using p by (simp only: map_of_jobs_removed if_True)
  with ret dt show ?thesis by blast
qed

theorem candidate_event_actions_witness:
  "manual_readable [''Asr'' \<mapsto> ''16:45'']
   \<and> merged_times \<lparr>env_today = 739924,
        env_page = Page [Label ''Fajr'' (IqamaLabel (TimeElement ''6:00 AM'')),
                         Label ''Dhuhr'' (IqamaLabel (TimeElement ''1:00 PM''))] True,
        env_manual = [''Asr'' \<mapsto> ''16:45''],
        env_now = minutes ((739924 * 24 + 12) * 60)\<rparr>
       = Inr [(''Fajr'', ''06:00''), (''Dhuhr'', ''13:00''), (''Asr'', ''16:45'')]
   \<and> weekday 739924 = 2
   \<and> map_of (jobs (snd (schedule_today \<lparr>env_today = 739924,
        env_page = Page [Label ''Fajr'' (IqamaLabel (TimeElement ''6:00 AM'')),
                         Label ''Dhuhr'' (IqamaLabel (TimeElement ''1:00 PM''))] True,
        env_manual = [''Asr'' \<mapsto> ''16:45''],
        env_now = minutes ((739924 * 24 + 12) * 60)\<rparr> initial_world)))
        ''prayer_start_Dhuhr''
       = Some (Job SwitchToPrayer (Date (minutes ((739924 * 24 + 13) * 60))))
   \<and> map_of (jobs (snd (schedule_today \<lparr>env_today = 739924,
        env_page = Page [Label ''Fajr'' (IqamaLabel (TimeElement ''6:00 AM'')),
                         Label ''Dhuhr'' (IqamaLabel (TimeElement ''1:00 PM''))] True,
        env_manual = [''Asr'' \<mapsto> ''16:45''],
        env_now = minutes ((739924 * 24 + 12) * 60)\<rparr> initial_world)))
        ''prayer_end_Dhuhr''
       = Some (Job SwitchToDefault (Date (minutes ((739924 * 24 + 13) * 60 + 10))))
   \<and> map_of (jobs (snd (schedule_today \<lparr>env_today = 739924,
        env_page = Page [Label ''Fajr'' (IqamaLabel (TimeElement ''6:00 AM'')),
                         Label ''Dhuhr'' (IqamaLabel (TimeElement ''1:00 PM''))] True,
        env_manual = [''Asr'' \<mapsto> ''16:45''],
        env_now = minutes ((739924 * 24 + 12) * 60)\<rparr> initial_world)))
        ''prayer_start_Fajr'' = None
   \<and> map_of (jobs (snd (schedule_today \<lparr>env_today = 739924,
        env_page = Page [Label ''Fajr'' (IqamaLabel (TimeElement ''6:00 AM'')),
                         Label ''Dhuhr'' (IqamaLabel (TimeElement ''1:00 PM''))] True,
        env_manual = [''Asr'' \<mapsto> ''16:45''],
        env_now = minutes ((739924 * 24 + 12) * 60)\<rparr> initial_world)))
        ''prayer_end_Fajr'' = None"
proof -
  let ?e = "\<lparr>env_today = 739924,
        env_page = Page [Label ''Fajr'' (IqamaLabel (TimeElement ''6:00 AM'')),
                         Label ''Dhuhr'' (IqamaLabel (TimeElement ''1:00 PM''))] True,
        env_manual = [''Asr'' \<mapsto> ''16:45''],
        env_now = minutes ((739924 * 24 + 12) * 60)\<rparr>"
  let ?m = "[(''Fajr'', ''06:00''), (''Dhuhr'', ''13:00''), (''Asr'', ''16:45'')]"
  have mr: "manual_readable (env_manual ?e)"
    by (simp add: manual_readable_def PRAYER_NAMES_def readable_def parsed_examples)
  have merged: "merged_times ?e = Inr ?m"
    by (simp add: merged_times_def scraped_fajr_dhuhr PRAYER_NAMES_def)
  have wd: "weekday 739924 = 2"
    by (simp add: weekday_def)
  have dhuhr: "(''Dhuhr'', ''13:00'') \<in> set ?m" and fajr: "(''Fajr'', ''06:00'') \<in> set ?m"
    by simp_all
  have nf: "\<not> (weekday (env_today ?e) = 4 \<and> ''Dhuhr'' = ''Dhuhr'')"
    "\<not> (weekday (env_today ?e) = 4 \<and> ''Fajr'' = ''Dhuhr'')"
    by (simp_all add: weekday_def)
  have rt: "read_time (env_today ?e) ''13:00'' = Inr (minutes ((739924 * 24 + 13) * 60))"
    "read_time (env_today ?e) ''06:00'' = Inr (minutes ((739924 * 24 + 6) * 60))"
    by (simp_all add: read_time_def combine_def parsed_examples)
  from candidate_event_actions[OF mr merged dhuhr nf(1), of initial_world]
       candidate_event_actions[OF mr merged fajr nf(2), of initial_world]
       mr merged wd
  show ?thesis
    unfolding rt by (simp add: minutes_def PRAYER_DURATION_MINUTES_def)
qed

text \<open>
  Claim C7. In the merged dictionary an event that the scraper returned keeps the scraped
  time, whatever the manual table says. When the scraper returned nothing, the merged
  dictionary is the manual table (its entries under the five names) and the cycle is what
  lines 214 to 277 do with that dictionary.
\<close>

theorem merge_prefers_scraped:
  assumes "scrape_iqama_times (env_page e) = Inr scraped"
    and "merged_times e = Inr iqama_times"
  shows "(map_of scraped prayer = Some t \<longrightarrow> map_of iqama_times prayer = Some t)
       \<and> (scraped = [] \<longrightarrow>
            iqama_times = manual_dict (env_manual e)
            \<and> map_of iqama_times prayer
                 = (if prayer \<in> set PRAYER_NAMES then env_manual e prayer else None)
            \<and> schedule_today e w
                 = schedule_times (env_today e) (env_now e) (weekday (env_today e) = 4)
                     (manual_dict (env_manual e)) (remove_prayer_jobs (get_jobs w) w))"
proof -
  from assms have m: "iqama_times = merge_manual PRAYER_NAMES (env_manual e) scraped"
    by (simp add: merged_times_def)
  have a: "map_of scraped prayer = Some t \<longrightarrow> map_of iqama_times prayer = Some t"
    by (simp add: m map_of_merge_manual)
  have b: "iqama_times = manual_dict (env_manual e)" if "scraped = []"
    using that by (simp add: m merge_manual_empty)
  have c: "map_of iqama_times prayer
             = (if prayer \<in> set PRAYER_NAMES then env_manual e prayer else None)"
    if "scraped = []"
    using that by (simp add: m map_of_merge_manual)
  have d: "schedule_today e w
             = schedule_times (env_today e) (env_now e) (weekday (env_today e) = 4)
                 (manual_dict (env_manual e)) (remove_prayer_jobs (get_jobs w) w)"
    if "scraped = []"
    using b[OF that] assms(2) by (simp add: schedule_today_def Let_def)
  from a b c d show ?thesis by blast
qed

theorem merge_prefers_scraped_witness:
  "scrape_iqama_times (Page [Label ''Dhuhr'' (IqamaLabel (TimeElement ''1:30 PM''))] True)
     = Inr [(''Dhuhr'', ''13:30'')]
   \<and> merged_times \<lparr>env_today = 739924,
        env_page = Page [Label ''Dhuhr'' (IqamaLabel (TimeElement ''1:30 PM''))] True,
        env_manual = [''Dhuhr'' \<mapsto> ''13:00'', ''Asr'' \<mapsto> ''16:45''],
        env_now = 0\<rparr>
       = Inr [(''Dhuhr'', ''13:30''), (''Asr'', ''16:45'')]
   \<and> map_of [(''Dhuhr'', ''13:30''), (''Asr'', ''16:45'')] ''Dhuhr'' = Some ''13:30''
   \<and> scrape_iqama_times PageRaises = Inr []
   \<and> merged_times \<lparr>env_today = 739924, env_page = PageRaises,
        env_manual = [''Dhuhr'' \<mapsto> ''13:00'', ''Asr'' \<mapsto> ''16:45''], env_now = 0\<rparr>
       = Inr [(''Dhuhr'', ''13:00''), (''Asr'', ''16:45'')]
   \<and> manual_dict [''Dhuhr'' \<mapsto> ''13:00'', ''Asr'' \<mapsto> ''16:45'']
       = [(''Dhuhr'', ''13:00''), (''Asr'', ''16:45'')]"
proof -
  let ?man = "[''Dhuhr'' \<mapsto> ''13:00'', ''Asr'' \<mapsto> ''16:45'']"
  let ?e1 = "\<lparr>env_today = 739924,
        env_page = Page [Label ''Dhuhr'' (IqamaLabel (TimeElement ''1:30 PM''))] True,
        env_manual = ?man, env_now = 0\<rparr>"
  let ?e2 = "\<lparr>env_today = 739924, env_page = PageRaises, env_manual = ?man, env_now = 0\<rparr>"
  have s1: "scrape_iqama_times (env_page ?e1) = Inr [(''Dhuhr'', ''13:30'')]"
    by (simp add: scraped_dhuhr)
  have m1: "merged_times ?e1 = Inr [(''Dhuhr'', ''13:30''), (''Asr'', ''16:45'')]"
    by (simp add: merged_times_def scraped_dhuhr PRAYER_NAMES_def)
  have s2: "scrape_iqama_times (env_page ?e2) = Inr []"
    by (simp add: scrape_iqama_times_def scrape_try_def)
  have m2: "merged_times ?e2 = Inr [(''Dhuhr'', ''13:00''), (''Asr'', ''16:45'')]"
    by (simp add: merged_times_def s2[simplified] PRAYER_NAMES_def)
  from merge_prefers_scraped[OF s1 m1, of "''Dhuhr''" "''13:30''" initial_world]
       merge_prefers_scraped[OF s2 m2, of "''Asr''" "''16:45''" initial_world]
       s1 m1 s2 m2
  show ?thesis
    by simp
qed

text \<open>
  Claim C8. \<^verbatim>\<open>scrape_iqama_times\<close> returns a dictionary for every behaviour of the browser
  and never raises. A label whose time text does not parse changes nothing: the result is
  the same as without that label. When a call raises at some label, the result is the
  dictionary built from the labels before it. And every event parsed from a prefix of the
  labels is an event of the result, whatever labels follow.
\<close>

theorem scrape_keeps_parsed:
  "(\<exists>iqama_times. scrape_iqama_times page = Inr iqama_times)
   \<and> (convert_to_24h (strip raw) = None \<longrightarrow>
        scrape_labels (ls1 @ Label name (IqamaLabel (TimeElement raw)) # ls2) d
          = scrape_labels (ls1 @ ls2) d)
   \<and> (scrape_labels ls1 [] = (Inr (), d1) \<and> fst (scrape_label l d1) = Inl err \<longrightarrow>
        scrape_iqama_times (Page (ls1 @ l # ls2) closes) = Inr d1)
   \<and> (scrape_labels ls1 [] = (Inr (), d1) \<longrightarrow>
        (\<exists>d2. scrape_iqama_times (Page (ls1 @ ls2) closes) = Inr d2
              \<and> fst ` set d1 \<subseteq> fst ` set d2))"
proof -
  have a: "\<exists>iqama_times. scrape_iqama_times page = Inr iqama_times"
    by (simp add: scrape_iqama_times_Inr)
  have b: "scrape_labels (ls1 @ Label name (IqamaLabel (TimeElement raw)) # ls2) d
          = scrape_labels (ls1 @ ls2) d" if "convert_to_24h (strip raw) = None"
    using scrape_label_unparsed[OF that]
    by (simp add: scrape_labels_append split: prod.splits sum.splits)
  have c: "scrape_iqama_times (Page (ls1 @ l # ls2) closes) = Inr d1"
    if "scrape_labels ls1 [] = (Inr (), d1)" "fst (scrape_label l d1) = Inl err"
  proof -
    from that(2) scrape_label_raise_keeps[OF that(2)]
    have "scrape_label l d1 = (Inl err, d1)"
      by (cases "scrape_label l d1") simp
    with that(1) have "scrape_labels (ls1 @ l # ls2) [] = (Inl err, d1)"
      by (simp add: scrape_labels_append)
    then show ?thesis
      by (simp add: scrape_iqama_times_def scrape_try_def)
  qed
  have d: "\<exists>d2. scrape_iqama_times (Page (ls1 @ ls2) closes) = Inr d2
              \<and> fst ` set d1 \<subseteq> fst ` set d2"
    if "scrape_labels ls1 [] = (Inr (), d1)"
  proof -
    have "scrape_labels (ls1 @ ls2) [] = scrape_labels ls2 d1"
      using that by (simp add: scrape_labels_append)
    then have "snd (scrape_try (Page (ls1 @ ls2) closes)) = snd (scrape_labels ls2 d1)"
      by (auto simp: scrape_try_def split: prod.splits sum.splits)
    with scrape_labels_keys[of d1 ls2] show ?thesis
      by (simp add: scrape_iqama_times_Inr)
  qed
  from a b c d show ?thesis by blast
qed

theorem scrape_keeps_parsed_witness:
  "convert_to_24h (strip ''soon'') = None
   \<and> scrape_labels [Label ''Fajr'' (IqamaLabel (TimeElement ''6:15 AM'')),
                    Label ''Dhuhr'' (IqamaLabel (TimeElement ''soon'')),
                    Label ''Isha'' (IqamaLabel (TimeElement ''8:00 PM''))] []
       = (Inr (), [(''Fajr'', ''06:15''), (''Isha'', ''20:00'')])
   \<and> scrape_labels [Label ''Fajr'' (IqamaLabel (TimeElement ''6:15 AM''))] []
       = (Inr (), [(''Fajr'', ''06:15'')])
   \<and> fst (scrape_label (Label ''Asr'' CardRaises) [(''Fajr'', ''06:15'')]) = Inl BrowserError
   \<and> scrape_iqama_times
         (Page [Label ''Fajr'' (IqamaLabel (TimeElement ''6:15 AM'')),
                Label ''Asr'' CardRaises,
                Label ''Isha'' (IqamaLabel (TimeElement ''8:00 PM''))] True)
       = Inr [(''Fajr'', ''06:15'')]
   \<and> scrape_iqama_times PageRaises = Inr []"
proof -
  let ?fajr = "Label ''Fajr'' (IqamaLabel (TimeElement ''6:15 AM''))"
  let ?isha = "Label ''Isha'' (IqamaLabel (TimeElement ''8:00 PM''))"
  have e: "scrape_iqama_times PageRaises = Inr []"
    by (simp add: scrape_iqama_times_def scrape_try_def)
  from scrape_keeps_parsed[of PageRaises "''soon''" "[?fajr]" "''Dhuhr''" "[?isha]" "[]"
         "[(''Fajr'', ''06:15'')]" "Label ''Asr'' CardRaises" BrowserError True]
       unparsed_soon scraped_fajr card_raises scraped_isha e
  show ?thesis
    by simp
qed

text \<open>
  Claim C9. Some malformed text with extra characters after the marker is parsed to a
  value: \<^verbatim>\<open>"1:05 PMx"\<close> yields \<^verbatim>\<open>13:05\<close>, spaces between the characters do not matter
  (\<^verbatim>\<open>"1 : 0 5 P M"\<close>), and whatever follows \<^verbatim>\<open>"1:05 PM"\<close> is ignored, since the pattern
  is matched against a prefix of the text only.
\<close>

theorem convert_to_24h_trailing_text:
  "convert_to_24h ''1:05 PMx'' = Some ''13:05''
   \<and> convert_to_24h ''1 : 0 5 P M'' = Some ''13:05''
   \<and> convert_to_24h (''1:05 PM'' @ rest) = Some ''13:05''"
proof -
  have "convert_to_24h ''1:05 PMx'' = Some ''13:05''"
    by code_simp
  moreover have "convert_to_24h ''1 : 0 5 P M'' = Some ''13:05''"
    by code_simp
  ultimately show ?thesis
    using convert_to_24h_ignores_rest by blast
qed

text \<open>
  Claim C10. On a Friday, when the start of the window (13:25 on the day) is not after
  now, the cycle adds neither \<^verbatim>\<open>jumuah_start\<close> nor \<^verbatim>\<open>jumuah_end\<close>, and the store holds
  neither after the cycle: a restore job pending from an earlier cycle is removed and not
  added again, also when now is still before the end of the window (14:15).
\<close>

theorem friday_window_started:
  assumes "weekday (env_today e) = 4"
    and "read_time (env_today e) JUMUAH_START = Inr start_dt"
    and "\<not> start_dt > env_now e"
  shows "map_of (jobs (snd (schedule_today e w))) ''jumuah_start'' = None
       \<and> map_of (jobs (snd (schedule_today e w))) ''jumuah_end'' = None
       \<and> AddJob ''jumuah_start'' j \<notin> set (cycle_calls e w)
       \<and> AddJob ''jumuah_end'' j \<notin> set (cycle_calls e w)"
proof -
  from assms(2) have s: "start_dt = jumuah_start_dt (env_today e)"
    by (simp add: read_time_JUMUAH)
  with assms(3) have nw: "\<not> (weekday (env_today e) = 4 \<and> jumuah_start_dt (env_today e) > env_now e)"
    by simp
  have "map_of (jobs (snd (schedule_today e w))) ''jumuah_start'' = None"
    unfolding schedule_today_eq
    by (simp add: schedule_times_jumuah_jobs[OF _ nw] map_of_jobs_removed prayer_prefixes)
  moreover have "map_of (jobs (snd (schedule_today e w))) ''jumuah_end'' = None"
    unfolding schedule_today_eq
    by (simp add: schedule_times_jumuah_jobs[OF _ nw] map_of_jobs_removed prayer_prefixes)
  moreover have "AddJob ''jumuah_start'' j \<notin> set (cycle_calls e w)"
    by (rule add_not_emitted) (use nw in \<open>simp add: startswith_def\<close>)
  moreover have "AddJob ''jumuah_end'' j \<notin> set (cycle_calls e w)"
    by (rule add_not_emitted) (use nw in \<open>simp add: startswith_def\<close>)
  ultimately show ?thesis by blast
qed

theorem friday_window_started_witness:
  "weekday (env_today \<lparr>env_today = 739926,
      env_page = Page [Label ''Asr'' (IqamaLabel (TimeElement ''4:45 PM''))] True,
      env_manual = get_manual_iqama_times,
      env_now = minutes ((739926 * 24 + 13) * 60 + 30)\<rparr>) = 4
   \<and> read_time 739926 JUMUAH_START = Inr (minutes ((739926 * 24 + 13) * 60 + 25))
   \<and> read_time 739926 JUMUAH_END = Inr (minutes ((739926 * 24 + 14) * 60 + 15))
   \<and> \<not> minutes ((739926 * 24 + 13) * 60 + 25) > minutes ((739926 * 24 + 13) * 60 + 30)
   \<and> minutes ((739926 * 24 + 13) * 60 + 30) < minutes ((739926 * 24 + 14) * 60 + 15)
   \<and> map_of (jobs (snd (schedule_today \<lparr>env_today = 739926,
      env_page = Page [Label ''Asr'' (IqamaLabel (TimeElement ''4:45 PM''))] True,
      env_manual = get_manual_iqama_times,
      env_now = minutes ((739926 * 24 + 13) * 60 + 30)\<rparr>
        (add_job SwitchToDefault (Date (minutes ((739926 * 24 + 14) * 60 + 15))) ''jumuah_end''
           initial_world))))
        ''jumuah_end'' = None
   \<and> cycle_calls \<lparr>env_today = 739926,
      env_page = Page [Label ''Asr'' (IqamaLabel (TimeElement ''4:45 PM''))] True,
      env_manual = get_manual_iqama_times,
      env_now = minutes ((739926 * 24 + 13) * 60 + 30)\<rparr>
        (add_job SwitchToDefault (Date (minutes ((739926 * 24 + 14) * 60 + 15))) ''jumuah_end''
           initial_world)
      = [RemoveJob ''jumuah_end'',
         AddJob ''prayer_start_Asr'' (Job SwitchToPrayer (Date (minutes ((739926 * 24 + 16) * 60 + 45)))),
         AddJob ''prayer_end_Asr'' (Job SwitchToDefault (Date (minutes ((739926 * 24 + 16) * 60 + 55)))),
         SwitchScene SCENE_DEFAULT]"
proof -
  let ?e = "\<lparr>env_today = 739926,
      env_page = Page [Label ''Asr'' (IqamaLabel (TimeElement ''4:45 PM''))] True,
      env_manual = get_manual_iqama_times,
      env_now = minutes ((739926 * 24 + 13) * 60 + 30)\<rparr>"
  let ?w = "add_job SwitchToDefault (Date (minutes ((739926 * 24 + 14) * 60 + 15))) ''jumuah_end''
           initial_world"
  have friday: "weekday (env_today ?e) = 4"
    by (simp add: weekday_def)
  have start: "read_time (env_today ?e) JUMUAH_START = Inr (minutes ((739926 * 24 + 13) * 60 + 25))"
    by (simp add: read_time_JUMUAH jumuah_start_dt_def)
  have finish: "read_time 739926 JUMUAH_END = Inr (minutes ((739926 * 24 + 14) * 60 + 15))"
    by (simp add: read_time_JUMUAH jumuah_end_dt_def)
  have started: "\<not> minutes ((739926 * 24 + 13) * 60 + 25) > env_now ?e"
    by (simp add: minutes_def)
  have inside: "minutes ((739926 * 24 + 13) * 60 + 30) < minutes ((739926 * 24 + 14) * 60 + 15)"
    by (simp add: minutes_def)
  have "parse_hm ''16:45'' = Inr (16, 45)"
    by code_simp
  then have asr: "read_time 739926 ''16:45'' = Inr (minutes ((739926 * 24 + 16) * 60 + 45))"
    by (simp add: read_time_def combine_def)
  have calls: "cycle_calls ?e ?w
      = [RemoveJob ''jumuah_end'',
         AddJob ''prayer_start_Asr'' (Job SwitchToPrayer (Date (minutes ((739926 * 24 + 16) * 60 + 45)))),
         AddJob ''prayer_end_Asr'' (Job SwitchToDefault (Date (minutes ((739926 * 24 + 16) * 60 + 55)))),
         SwitchScene SCENE_DEFAULT]"
    by (simp add: cycle_calls_def schedule_today_def merged_times_def scraped_asr
        get_manual_iqama_times_def PRAYER_NAMES_def schedule_times_def asr weekday_def
        schedule_jumuah_eq jumuah_start_dt_def get_jobs_def add_job_def remove_job_def
        initial_world_def is_prayer_job_def startswith_def switch_to_default_def
        switch_scene_def PRAYER_DURATION_MINUTES_def minutes_def Let_def)
  from friday_window_started[OF friday start started, of ?w] friday start finish started inside calls
  show ?thesis
    by simp
qed

end
